theory Spec2Isabelle
  imports Main
begin

section \<open>Strings of the host language\<close>

text \<open>
  Strings are character lists. The string methods the parser and the projector call
  (\<^verbatim>\<open>split\<close>, \<^verbatim>\<open>startsWith\<close>, \<^verbatim>\<open>replace\<close> with a global pattern,
  \<^verbatim>\<open>charAt\<close>, \<^verbatim>\<open>slice\<close>, \<^verbatim>\<open>join\<close>, \<^verbatim>\<open>repeat\<close>,
  \<^verbatim>\<open>toUpperCase\<close>, \<^verbatim>\<open>toLowerCase\<close>) are modelled one by one. The two case
  mappings act on the ASCII letters and leave every other character as it is.
\<close>

definition lower_letters :: string where
  "lower_letters = ''abcdefghijklmnopqrstuvwxyz''"

definition upper_letters :: string where
  "upper_letters = ''ABCDEFGHIJKLMNOPQRSTUVWXYZ''"

definition upper_char :: "char \<Rightarrow> char" where
  "upper_char c = (case map_of (zip lower_letters upper_letters) c of Some u \<Rightarrow> u | None \<Rightarrow> c)"

definition lower_char :: "char \<Rightarrow> char" where
  "lower_char c = (case map_of (zip upper_letters lower_letters) c of Some l \<Rightarrow> l | None \<Rightarrow> c)"

definition toUpperCase :: "string \<Rightarrow> string" where
  "toUpperCase s = map upper_char s"

definition toLowerCase :: "string \<Rightarrow> string" where
  "toLowerCase s = map lower_char s"

text \<open>\<^verbatim>\<open>s.split(c)\<close> for a one-character separator: never the empty list, and
  \<^verbatim>\<open>''.split('/')\<close> is the list holding the empty string.\<close>

fun split :: "char \<Rightarrow> string \<Rightarrow> string list" where
  "split c [] = [[]]"
| "split c (x # xs) =
     (if x = c then [] # split c xs
      else (case split c xs of [] \<Rightarrow> [[x]] | y # ys \<Rightarrow> (x # y) # ys))"

definition startsWith :: "string \<Rightarrow> string \<Rightarrow> bool" where
  "startsWith s p = (take (length p) s = p)"

text \<open>\<^verbatim>\<open>s.replace(/[{}]/g, '')\<close> and \<^verbatim>\<open>s.replace(/-/g, '_')\<close>.\<close>

definition remove_braces :: "string \<Rightarrow> string" where
  "remove_braces s = filter (\<lambda>c. c \<noteq> CHR ''{'' \<and> c \<noteq> CHR ''}'') s"

definition dashes_to_underscores :: "string \<Rightarrow> string" where
  "dashes_to_underscores s = map (\<lambda>c. if c = CHR ''-'' then CHR ''_'' else c) s"

text \<open>\<^verbatim>\<open>s.charAt(0)\<close> is the empty string on the empty string; \<^verbatim>\<open>s.slice(1)\<close>
  drops one character.\<close>

definition charAt0 :: "string \<Rightarrow> string" where
  "charAt0 s = take 1 s"

definition slice1 :: "string \<Rightarrow> string" where
  "slice1 s = drop 1 s"

fun join :: "string \<Rightarrow> string list \<Rightarrow> string" where
  "join sep [] = []"
| "join sep [x] = x"
| "join sep (x # y # ys) = x @ sep @ join sep (y # ys)"

definition repeat :: "string \<Rightarrow> nat \<Rightarrow> string" where
  "repeat s n = concat (replicate n s)"

section \<open>Objects of the host language\<close>

text \<open>
  An object with named keys is an association list of its own properties in the order in
  which they were created, which for a parsed document is the order in which it declares
  them; the keys are distinct. \<^verbatim>\<open>Object.entries\<close> does not enumerate in that order: the
  keys that are array indices (a canonical decimal numeral, no leading zero, at most
  \<open>2\<^sup>3\<^sup>2 - 2\<close>) come first, in ascending numeric order, and the other keys follow in the
  order of creation.
\<close>

definition digit_value :: "char \<Rightarrow> nat option" where
  "digit_value c = map_of (zip ''0123456789'' [0, 1, 2, 3, 4, 5, 6, 7, 8, 9]) c"

fun decimal :: "nat \<Rightarrow> string \<Rightarrow> nat option" where
  "decimal n [] = Some n"
| "decimal n (c # cs) =
     (case digit_value c of None \<Rightarrow> None | Some d \<Rightarrow> decimal (10 * n + d) cs)"

definition array_index :: "string \<Rightarrow> nat option" where
  "array_index k =
     (if k = [] \<or> (take 1 k = ''0'' \<and> k \<noteq> ''0'') then None
      else (case decimal 0 k of
              None \<Rightarrow> None
            | Some n \<Rightarrow> if n \<le> 4294967294 then Some n else None))"

definition object_entries :: "(string \<times> 'a) list \<Rightarrow> (string \<times> 'a) list" where
  "object_entries kvs =
     sort_key (\<lambda>(k, v). case array_index k of None \<Rightarrow> 0 | Some n \<Rightarrow> n)
       (filter (\<lambda>(k, v). array_index k \<noteq> None) kvs)
     @ filter (\<lambda>(k, v). array_index k = None) kvs"

section \<open>Data model (types.ts)\<close>

text \<open>
  A schema is the loosely typed record of \<^verbatim>\<open>types.ts\<close>: every field is optional, and a
  reference \<^verbatim>\<open>{ $ref: string }\<close> is a schema whose only field is \<open>schema_ref\<close>. The
  table \<open>schema_properties\<close> is an object with named keys, in the order of declaration;
  the projector reads it through \<open>object_entries\<close>. An element of \<open>schema_enum\<close> is kept as the string
  the template literal \<^verbatim>\<open>${v}\<close> makes of it, the only use the projector has for it.
  \<open>schema_additionalProperties\<close> is \<^verbatim>\<open>boolean | Schema | { $ref: string }\<close>.
\<close>

datatype schema = Schema
  (schema_type: "string option")
  (schema_format: "string option")
  (schema_enum: "string list option")
  (schema_items: "schema option")
  (schema_properties: "(string \<times> schema) list option")
  (schema_required: "string list option")
  (schema_additionalProperties: "(bool + schema) option")
  (schema_ref: "string option")
  (schema_allOf: "schema list option")
  (schema_oneOf: "schema list option")
  (schema_anyOf: "schema list option")

text \<open>The schema with no field at all, \<^verbatim>\<open>{}\<close>, from which examples are built.\<close>

definition empty_schema :: schema where
  "empty_schema = Schema None None None None None None None None None None None"

datatype location = Path | Query | Header | Cookie

record parameter =
  param_name :: string
  param_in :: location
  param_description :: "string option"
  param_required :: "bool option"
  param_schema :: "schema option"

record media =
  media_schema :: "schema option"

type_synonym content = "(string \<times> media option) list"

record requestBody =
  body_ref :: "string option"
  body_description :: "string option"
  body_required :: "bool option"
  body_content :: "content option"

record response =
  resp_ref :: "string option"
  resp_description :: "string option"
  resp_content :: "content option"

record operation =
  op_operationId :: "string option"
  op_summary :: "string option"
  op_description :: "string option"
  op_parameters :: "parameter list option"
  op_requestBody :: "requestBody option"
  op_responses :: "(string \<times> response) list"
  op_tags :: "string list option"

record pathItem =
  item_get :: "operation option"
  item_post :: "operation option"
  item_put :: "operation option"
  item_delete :: "operation option"
  item_patch :: "operation option"
  item_parameters :: "parameter list option"

text \<open>Of the specification document the extractor reads the path table only. Its keys
  are path patterns, which begin with a slash and are never array indices, so that
  \<^verbatim>\<open>Object.entries\<close> enumerates the table in the order of declaration; the same holds
  for the media types that key a content table. The responses of an operation are keyed
  by status codes, and the extractor reads them through \<open>object_entries\<close>.\<close>

record openAPISpec =
  spec_paths :: "(string \<times> pathItem) list"

record endpointInfo =
  ep_path :: string
  ep_method :: string
  ep_operationId :: string
  ep_summary :: "string option"
  ep_description :: "string option"
  ep_pathParams :: "parameter list"
  ep_queryParams :: "parameter list"
  ep_requestBody :: "requestBody option"
  ep_responses :: "(string \<times> response) list"
  ep_tags :: "string list option"

section \<open>Operation Namer and Endpoint Extractor (openapi-parser.ts)\<close>

definition capitalize :: "string \<Rightarrow> string" where
  "capitalize p = toUpperCase (charAt0 p) @ slice1 p"

definition pathParts :: "string \<Rightarrow> string list" where
  "pathParts path =
     map capitalize
       (map (\<lambda>p. dashes_to_underscores (remove_braces p))
         (filter (\<lambda>p. p \<noteq> [] \<and> \<not> startsWith p ''{'') (split CHR ''/'' path)))"

definition generateOperationId :: "string \<Rightarrow> string \<Rightarrow> string" where
  "generateOperationId path method =
     (let methodLower = toLowerCase method in
      if length (pathParts path) = 0 then methodLower @ ''Root''
      else methodLower @ join [] (pathParts path))"

text \<open>The verbs in the order of the \<^verbatim>\<open>methods\<close> array, and \<^verbatim>\<open>pathItem[method]\<close>.\<close>

definition methods :: "string list" where
  "methods = [''get'', ''post'', ''put'', ''delete'', ''patch'']"

definition item_operation :: "pathItem \<Rightarrow> string \<Rightarrow> operation option" where
  "item_operation pathItem method =
     (if method = ''get'' then item_get pathItem
      else if method = ''post'' then item_post pathItem
      else if method = ''put'' then item_put pathItem
      else if method = ''delete'' then item_delete pathItem
      else if method = ''patch'' then item_patch pathItem
      else None)"

text \<open>\<^verbatim>\<open>a || b\<close> on an optional string: the empty string is falsy as the absent one is.\<close>

definition or_else :: "string option \<Rightarrow> string \<Rightarrow> string" where
  "or_else a b = (case a of None \<Rightarrow> b | Some s \<Rightarrow> if s = [] then b else s)"

definition or_empty :: "'a list option \<Rightarrow> 'a list" where
  "or_empty xs = (case xs of None \<Rightarrow> [] | Some ys \<Rightarrow> ys)"

text \<open>The body of the inner loop for an operation that is declared: the descriptor pushed.\<close>

definition endpointOf :: "string \<Rightarrow> pathItem \<Rightarrow> string \<Rightarrow> operation \<Rightarrow> endpointInfo" where
  "endpointOf pathPattern pathItem method operation =
     (let operationId =
            or_else (op_operationId operation) (generateOperationId pathPattern (toUpperCase method));
          allParams = or_empty (item_parameters pathItem) @ or_empty (op_parameters operation);
          pathParams = filter (\<lambda>p. param_in p = Path) allParams;
          queryParams = filter (\<lambda>p. param_in p = Query) allParams;
          requestBody =
            (case op_requestBody operation of
               None \<Rightarrow> None
             | Some b \<Rightarrow> if body_ref b \<noteq> None then Some b else Some b);
          responses =
            map (\<lambda>(statusCode, response).
                   if resp_ref response \<noteq> None then (statusCode, response)
                   else (statusCode, response))
                (object_entries (op_responses operation))
      in \<lparr> ep_path = pathPattern,
           ep_method = toUpperCase method,
           ep_operationId = operationId,
           ep_summary = op_summary operation,
           ep_description = op_description operation,
           ep_pathParams = pathParams,
           ep_queryParams = queryParams,
           ep_requestBody = requestBody,
           ep_responses = responses,
           ep_tags = op_tags operation \<rparr>)"

text \<open>One turn of the inner loop: \<^verbatim>\<open>continue\<close> when the verb is not declared,
  \<^verbatim>\<open>endpoints.push\<close> otherwise. The two loops run over the path table and over
  \<open>methods\<close>, threading the list of descriptors built so far.\<close>

definition method_step :: "string \<Rightarrow> pathItem \<Rightarrow> endpointInfo list \<Rightarrow> string \<Rightarrow> endpointInfo list" where
  "method_step pathPattern pathItem endpoints method =
     (case item_operation pathItem method of
        None \<Rightarrow> endpoints
      | Some operation \<Rightarrow> endpoints @ [endpointOf pathPattern pathItem method operation])"

definition path_step :: "endpointInfo list \<Rightarrow> string \<times> pathItem \<Rightarrow> endpointInfo list" where
  "path_step endpoints entry = foldl (method_step (fst entry) (snd entry)) endpoints methods"

definition extractEndpoints :: "openAPISpec \<Rightarrow> endpointInfo list" where
  "extractEndpoints spec = foldl path_step [] (spec_paths spec)"

section \<open>Schema-to-Type Projector (schema-to-types.ts)\<close>

text \<open>
  Failures of the host language are values. The one the projector can meet is the
  \<^verbatim>\<open>TypeError\<close> of the operator \<^verbatim>\<open>in\<close> applied to a value that is not an object.
\<close>

datatype error = TypeError

text \<open>
  What \<open>schemaToType\<close> is called with: the declared
  \<^verbatim>\<open>Schema | { $ref: string } | undefined\<close>, and a boolean as well, since the
  \<^verbatim>\<open>boolean | Schema\<close> of \<open>schema_additionalProperties\<close> is passed on under the cast
  \<^verbatim>\<open>as Schema\<close>.
\<close>

datatype jsvalue = Undefined | Boolean bool | Object schema

text \<open>\<^verbatim>\<open>schema !== undefined && '$ref' in schema\<close>\<close>

fun isRef :: "jsvalue \<Rightarrow> error + bool" where
  "isRef Undefined = Inr False"
| "isRef (Boolean b) = Inl TypeError"
| "isRef (Object s) = Inr (schema_ref s \<noteq> None)"

text \<open>\<^verbatim>\<open>parts[parts.length - 1]\<close> of a list that \<open>split\<close> never leaves empty.\<close>

definition getRefTypeName :: "string \<Rightarrow> string" where
  "getRefTypeName ref = last (split CHR ''/'' ref)"

text \<open>\<^verbatim>\<open>xs.map(f)\<close> for an \<open>f\<close> that may throw: the first failure is the failure of
  the whole.\<close>

fun all_results :: "(error + 'a) list \<Rightarrow> error + 'a list" where
  "all_results [] = Inr []"
| "all_results (Inl e # rs) = Inl e"
| "all_results (Inr x # rs) = (case all_results rs of Inl e \<Rightarrow> Inl e | Inr xs \<Rightarrow> Inr (x # xs))"

definition quoted :: "string \<Rightarrow> string" where
  "quoted v = [CHR 0x27] @ v @ [CHR 0x27]"

fun jsvalue_size :: "jsvalue \<Rightarrow> nat" where
  "jsvalue_size (Object s) = Suc (size s)"
| "jsvalue_size v = 0"

function (sequential) schemaToType :: "jsvalue \<Rightarrow> nat \<Rightarrow> error + string" where
  "schemaToType Undefined indent = Inr ''any''"
| "schemaToType (Boolean b) indent =
     (if \<not> b then Inr ''any''
      else (case isRef (Boolean b) of Inl e \<Rightarrow> Inl e | Inr r \<Rightarrow> Inr ''any''))"
| "schemaToType (Object (Schema ty fmt enum_vals items properties required additionalProperties
      ref allOf oneOf anyOf)) indent =
    (case ref of
       Some r \<Rightarrow> Inr (getRefTypeName r)
     | None \<Rightarrow>
        (let indentStr = repeat ''  '' indent in
         if ty = Some ''string'' then
           (case enum_vals of
              Some vs \<Rightarrow> Inr (join '' | '' (map quoted vs))
            | None \<Rightarrow> if fmt = Some ''date-time'' then Inr ''string'' else Inr ''string'')
         else if ty = Some ''number'' \<or> ty = Some ''integer'' then
           Inr (if ty = Some ''integer'' then ''number'' else ''number'')
         else if ty = Some ''boolean'' then Inr ''boolean''
         else if ty = Some ''array'' then
           (case items of
              Some it \<Rightarrow>
                (case schemaToType (Object it) indent of
                   Inl e \<Rightarrow> Inl e
                 | Inr itemType \<Rightarrow> Inr (''Array<'' @ itemType @ ''>''))
            | None \<Rightarrow> Inr ''any[]'')
         else if ty = Some ''object'' then
           (case properties of
              None \<Rightarrow>
                (case additionalProperties of
                   None \<Rightarrow> Inr ''Record<string, any>''
                 | Some (Inl b) \<Rightarrow>
                     if \<not> b then Inr ''Record<string, never>''
                     else (case schemaToType (Boolean b) indent of
                             Inl e \<Rightarrow> Inl e
                           | Inr valueType \<Rightarrow> Inr (''Record<string, '' @ valueType @ ''>''))
                 | Some (Inr ap) \<Rightarrow>
                     (case schemaToType (Object ap) indent of
                        Inl e \<Rightarrow> Inl e
                      | Inr valueType \<Rightarrow> Inr (''Record<string, '' @ valueType @ ''>'')))
            | Some props \<Rightarrow>
                (case all_results
                        (map (\<lambda>(key, value).
                                case schemaToType (Object value) (indent + 1) of
                                  Inl e \<Rightarrow> Inl e
                                | Inr propType \<Rightarrow>
                                    Inr (indentStr @ ''  '' @ key
                                         @ (if key \<in> set (or_empty required) then [] else ''?'')
                                         @ '': '' @ propType @ '';''))
                             (object_entries props)) of
                   Inl e \<Rightarrow> Inl e
                 | Inr ps \<Rightarrow>
                     Inr (''{\<newline>'' @ join ''\<newline>'' ps @ ''\<newline>'' @ indentStr @ ''}'')))
         else
           (case allOf of
              Some alts \<Rightarrow>
                (case all_results (map (\<lambda>s. schemaToType (Object s) (indent + 1)) alts) of
                   Inl e \<Rightarrow> Inl e
                 | Inr types \<Rightarrow> Inr (join '' & '' types))
            | None \<Rightarrow>
                (case (case oneOf of Some a \<Rightarrow> Some a | None \<Rightarrow> anyOf) of
                   Some alts \<Rightarrow>
                     (case all_results (map (\<lambda>s. schemaToType (Object s) (indent + 1)) alts) of
                        Inl e \<Rightarrow> Inl e
                      | Inr types \<Rightarrow> Inr (''('' @ join '' | '' types @ '')''))
                 | None \<Rightarrow> Inr ''any''))))"
  by pat_completeness auto
termination
proof (relation "measure (\<lambda>(v, indent). jsvalue_size v)", goal_cases)
  case 1
  show ?case by simp
next
  case 2
  then show ?case by simp
next
  case 3
  then show ?case by simp
next
  case 4
  then show ?case by simp
next
  case 5
  then show ?case
    by (auto simp: object_entries_def
             dest!: size_list_estimation'[where f = "size_prod (\<lambda>_. 0) size", OF _ order_refl])
next
  case 6
  then show ?case
    by (auto dest!: size_list_estimation'[where f = size, OF _ order_refl]
             split: option.split_asm)
next
  case 7
  then show ?case
    by (auto dest!: size_list_estimation'[where f = size, OF _ order_refl])
qed

text \<open>\<open>getSchemaFromContent\<close> of openapi-parser.ts: the schema of the
  \<^verbatim>\<open>application/json\<close> entry when it has one, otherwise that of the first entry that
  is not \<^verbatim>\<open>undefined\<close>.\<close>

definition getSchemaFromContent :: "content option \<Rightarrow> schema option" where
  "getSchemaFromContent content =
     (case content of
        None \<Rightarrow> None
      | Some c \<Rightarrow>
          (case (case map_of c ''application/json'' of
                   Some (Some jsonContent) \<Rightarrow> media_schema jsonContent
                 | _ \<Rightarrow> None) of
             Some s \<Rightarrow> Some s
           | None \<Rightarrow>
               (case find (\<lambda>item. item \<noteq> None) (map snd c) of
                  Some (Some firstContent) \<Rightarrow> media_schema firstContent
                | _ \<Rightarrow> None)))"

definition generateResponseType :: "response option \<Rightarrow> string \<Rightarrow> string \<Rightarrow> error + string" where
  "generateResponseType response endpointName statusCode =
     (case response of
        None \<Rightarrow> Inr ''any''
      | Some r \<Rightarrow>
          (case getSchemaFromContent (resp_content r) of
             None \<Rightarrow> Inr ''any''
           | Some schema \<Rightarrow> schemaToType (Object schema) 0))"

section \<open>Resolved documents as object graphs\<close>

text \<open>
  After resolution a schema that contains itself is an object that points back to itself,
  which no value of the tree type \<open>schema\<close> can be. A resolved document is therefore an
  explicit store: a \<open>graph\<close> maps a \<open>pointer\<close> to the \<open>node\<close> that lives there, and a node
  holds its sub-schemas as pointers. A pointer is the location of an object in the
  document as it was written: the name of a schema component and the steps that lead from
  the root of that component to the object.
\<close>

datatype step = Items | Property string | AdditionalProperties | AllOf nat | OneOf nat | AnyOf nat

type_synonym pointer = "string \<times> step list"

type_synonym components = "(string \<times> schema) list"

datatype node = Node
  (node_type: "string option")
  (node_format: "string option")
  (node_enum: "string list option")
  (node_items: "pointer option")
  (node_properties: "(string \<times> pointer) list option")
  (node_required: "string list option")
  (node_additionalProperties: "(bool + pointer) option")
  (node_ref: "string option")
  (node_allOf: "pointer list option")
  (node_oneOf: "pointer list option")
  (node_anyOf: "pointer list option")

type_synonym graph = "pointer \<Rightarrow> node option"

text \<open>
  Modelled from the spec: \<^verbatim>\<open>$RefParser.dereference\<close> of the package
  json-schema-ref-parser, which \<open>loadOpenAPISpec\<close> calls and whose code is not among the
  sources. Following section 4.1 of the specification: every node of the form "reference
  to location L" is replaced by the resolved content at L; the inlining preserves
  structure and is memoised by reference location, so that a schema met twice in one
  chain is the node already built and a self-reference becomes a cycle of the graph; a
  reference to a location that does not exist aborts the whole load.

  The definitions up to \<open>dereference\<close> make up this model. \<open>child\<close>, \<open>subschema\<close> and
  \<open>raw_at\<close> read the schema written at a location of the document that is not yet
  resolved; \<open>ref_target\<close> is the location a reference names; \<open>resolve\<close> follows a chain
  of references; \<open>link\<close> is the pointer stored for a sub-schema; \<open>node_at\<close> is the node
  built at a location; \<open>refs_of\<close> lists the references a schema holds; \<open>dereference\<close>
  is the load.
\<close>

definition nth_option :: "'a list option \<Rightarrow> nat \<Rightarrow> 'a option" where
  "nth_option xs i =
     (case xs of None \<Rightarrow> None | Some ys \<Rightarrow> if i < length ys then Some (ys ! i) else None)"

fun child :: "schema \<Rightarrow> step \<Rightarrow> schema option" where
  "child s Items = schema_items s"
| "child s (Property k) =
     (case schema_properties s of None \<Rightarrow> None | Some ps \<Rightarrow> map_of ps k)"
| "child s AdditionalProperties =
     (case schema_additionalProperties s of Some (Inr a) \<Rightarrow> Some a | _ \<Rightarrow> None)"
| "child s (AllOf i) = nth_option (schema_allOf s) i"
| "child s (OneOf i) = nth_option (schema_oneOf s) i"
| "child s (AnyOf i) = nth_option (schema_anyOf s) i"

fun subschema :: "schema \<Rightarrow> step list \<Rightarrow> schema option" where
  "subschema s [] = Some s"
| "subschema s (st # sts) = (case child s st of None \<Rightarrow> None | Some c \<Rightarrow> subschema c sts)"

definition raw_at :: "components \<Rightarrow> pointer \<Rightarrow> schema option" where
  "raw_at comps p =
     (case map_of comps (fst p) of None \<Rightarrow> None | Some s \<Rightarrow> subschema s (snd p))"

text \<open>Modelled from the spec: the location a reference names. The references of the model
  are those to a schema component, \<^verbatim>\<open>#/components/schemas/<name>\<close>.\<close>

definition ref_target :: "string \<Rightarrow> pointer option" where
  "ref_target r =
     (case split CHR ''/'' r of
        [a, b, c, name] \<Rightarrow>
          if a = ''#'' \<and> b = ''components'' \<and> c = ''schemas'' then Some (name, []) else None
      | _ \<Rightarrow> None)"

text \<open>Modelled from the spec: the chain of references that starts at a location, followed
  to the location of the object that ends it (section 4.1, "replaced by the recursively
  resolved content"). The fuel bounds the chain by the number of components, beyond which
  it would only turn in a circle of bare references.\<close>

fun resolve :: "nat \<Rightarrow> components \<Rightarrow> pointer \<Rightarrow> pointer option" where
  "resolve 0 comps p = None"
| "resolve (Suc n) comps p =
     (case raw_at comps p of
        None \<Rightarrow> None
      | Some s \<Rightarrow>
          (case schema_ref s of
             None \<Rightarrow> Some p
           | Some r \<Rightarrow>
               (case ref_target r of None \<Rightarrow> None | Some q \<Rightarrow> resolve n comps q)))"

definition link :: "components \<Rightarrow> pointer \<Rightarrow> step \<Rightarrow> pointer" where
  "link comps p st =
     (case resolve (Suc (length comps)) comps (fst p, snd p @ [st]) of
        None \<Rightarrow> (fst p, snd p @ [st])
      | Some q \<Rightarrow> q)"

definition node_at :: "components \<Rightarrow> pointer \<Rightarrow> schema \<Rightarrow> node" where
  "node_at comps p s =
     Node (schema_type s) (schema_format s) (schema_enum s)
       (map_option (\<lambda>c. link comps p Items) (schema_items s))
       (map_option (map (\<lambda>(k, c). (k, link comps p (Property k)))) (schema_properties s))
       (schema_required s)
       (map_option (\<lambda>a. case a of Inl b \<Rightarrow> Inl b | Inr c \<Rightarrow> Inr (link comps p AdditionalProperties))
          (schema_additionalProperties s))
       None
       (map_option (\<lambda>xs. map (\<lambda>i. link comps p (AllOf i)) [0..<length xs]) (schema_allOf s))
       (map_option (\<lambda>xs. map (\<lambda>i. link comps p (OneOf i)) [0..<length xs]) (schema_oneOf s))
       (map_option (\<lambda>xs. map (\<lambda>i. link comps p (AnyOf i)) [0..<length xs]) (schema_anyOf s))"

fun refs_of :: "schema \<Rightarrow> string list" where
  "refs_of (Schema ty fmt enum_vals items properties required additionalProperties ref allOf
      oneOf anyOf) =
     (case ref of None \<Rightarrow> [] | Some r \<Rightarrow> [r]) @
     (case items of None \<Rightarrow> [] | Some it \<Rightarrow> refs_of it) @
     (case properties of None \<Rightarrow> [] | Some ps \<Rightarrow> concat (map (\<lambda>(k, v). refs_of v) ps)) @
     (case additionalProperties of Some (Inr a) \<Rightarrow> refs_of a | _ \<Rightarrow> []) @
     (case allOf of None \<Rightarrow> [] | Some xs \<Rightarrow> concat (map refs_of xs)) @
     (case oneOf of None \<Rightarrow> [] | Some xs \<Rightarrow> concat (map refs_of xs)) @
     (case anyOf of None \<Rightarrow> [] | Some xs \<Rightarrow> concat (map refs_of xs))"

text \<open>Modelled from the spec: the load fails on the first reference without a target, and
  otherwise yields the graph whose objects sit at the locations that did not hold a
  reference, each linked to the objects its sub-schemas resolve to.\<close>

datatype load_error = MissingPointer string

definition unresolved_refs :: "components \<Rightarrow> string list" where
  "unresolved_refs comps =
     filter (\<lambda>r. case ref_target r of
                   None \<Rightarrow> True
                 | Some q \<Rightarrow> resolve (Suc (length comps)) comps q = None)
            (concat (map (\<lambda>(name, s). refs_of s) comps))"

definition dereference :: "components \<Rightarrow> load_error + graph" where
  "dereference comps =
     (case unresolved_refs comps of
        r # rs \<Rightarrow> Inl (MissingPointer r)
      | [] \<Rightarrow>
          Inr (\<lambda>p. case raw_at comps p of
                      None \<Rightarrow> None
                    | Some s \<Rightarrow> if schema_ref s \<noteq> None then None else Some (node_at comps p s)))"

text \<open>\<open>loadOpenAPISpec\<close> of openapi-parser.ts, from the parsed document on: reading the
  file and parsing JSON or YAML are outside the model, and of the document the schema
  components are kept.\<close>

definition loadOpenAPISpec :: "components \<Rightarrow> load_error + graph" where
  "loadOpenAPISpec spec = dereference spec"

text \<open>
  \<open>schemaToType\<close> run on a graph. It is the function of schema-to-types.ts once more,
  case by case, reading each object through its pointer. Its recursion is no longer
  bounded by the size of a tree, so it takes fuel, the depth of calls it may still make:
  \<open>None\<close> says that this depth was not enough, and a call that is \<open>None\<close> for every
  amount of fuel never returns.
\<close>

datatype gvalue = GUndefined | GBoolean bool | GObject pointer

fun all_results_opt :: "(error + 'a) option list \<Rightarrow> (error + 'a list) option" where
  "all_results_opt [] = Some (Inr [])"
| "all_results_opt (None # rs) = None"
| "all_results_opt (Some (Inl e) # rs) = Some (Inl e)"
| "all_results_opt (Some (Inr x) # rs) =
     (case all_results_opt rs of
        None \<Rightarrow> None
      | Some (Inl e) \<Rightarrow> Some (Inl e)
      | Some (Inr xs) \<Rightarrow> Some (Inr (x # xs)))"

definition then_type :: "(error + 'a) option \<Rightarrow> ('a \<Rightarrow> string) \<Rightarrow> (error + string) option" where
  "then_type r f =
     (case r of None \<Rightarrow> None | Some (Inl e) \<Rightarrow> Some (Inl e) | Some (Inr t) \<Rightarrow> Some (Inr (f t)))"

fun schemaToType_resolved :: "nat \<Rightarrow> graph \<Rightarrow> gvalue \<Rightarrow> nat \<Rightarrow> (error + string) option" where
  "schemaToType_resolved 0 g v indent = None"
| "schemaToType_resolved (Suc n) g GUndefined indent = Some (Inr ''any'')"
| "schemaToType_resolved (Suc n) g (GBoolean b) indent =
     (if \<not> b then Some (Inr ''any'') else Some (Inl TypeError))"
| "schemaToType_resolved (Suc n) g (GObject p) indent =
    (case g p of
       None \<Rightarrow> None
     | Some (Node ty fmt enum_vals items properties required additionalProperties ref allOf
          oneOf anyOf) \<Rightarrow>
    (case ref of
       Some r \<Rightarrow> Some (Inr (getRefTypeName r))
     | None \<Rightarrow>
        (let indentStr = repeat ''  '' indent in
         if ty = Some ''string'' then
           (case enum_vals of
              Some vs \<Rightarrow> Some (Inr (join '' | '' (map quoted vs)))
            | None \<Rightarrow> if fmt = Some ''date-time'' then Some (Inr ''string'') else Some (Inr ''string''))
         else if ty = Some ''number'' \<or> ty = Some ''integer'' then
           Some (Inr (if ty = Some ''integer'' then ''number'' else ''number''))
         else if ty = Some ''boolean'' then Some (Inr ''boolean'')
         else if ty = Some ''array'' then
           (case items of
              Some it \<Rightarrow>
                then_type (schemaToType_resolved n g (GObject it) indent)
                  (\<lambda>itemType. ''Array<'' @ itemType @ ''>'')
            | None \<Rightarrow> Some (Inr ''any[]''))
         else if ty = Some ''object'' then
           (case properties of
              None \<Rightarrow>
                (case additionalProperties of
                   None \<Rightarrow> Some (Inr ''Record<string, any>'')
                 | Some (Inl b) \<Rightarrow>
                     if \<not> b then Some (Inr ''Record<string, never>'')
                     else then_type (schemaToType_resolved n g (GBoolean b) indent)
                            (\<lambda>valueType. ''Record<string, '' @ valueType @ ''>'')
                 | Some (Inr ap) \<Rightarrow>
                     then_type (schemaToType_resolved n g (GObject ap) indent)
                       (\<lambda>valueType. ''Record<string, '' @ valueType @ ''>''))
            | Some props \<Rightarrow>
                then_type
                  (all_results_opt
                     (map (\<lambda>(key, value).
                             then_type (schemaToType_resolved n g (GObject value) (indent + 1))
                               (\<lambda>propType.
                                  indentStr @ ''  '' @ key
                                  @ (if key \<in> set (or_empty required) then [] else ''?'')
                                  @ '': '' @ propType @ '';''))
                          (object_entries props)))
                  (\<lambda>ps. ''{\<newline>'' @ join ''\<newline>'' ps @ ''\<newline>'' @ indentStr @ ''}''))
         else
           (case allOf of
              Some alts \<Rightarrow>
                then_type
                  (all_results_opt
                     (map (\<lambda>s. schemaToType_resolved n g (GObject s) (indent + 1)) alts))
                  (\<lambda>types. join '' & '' types)
            | None \<Rightarrow>
                (case (case oneOf of Some a \<Rightarrow> Some a | None \<Rightarrow> anyOf) of
                   Some alts \<Rightarrow>
                     then_type
                       (all_results_opt
                          (map (\<lambda>s. schemaToType_resolved n g (GObject s) (indent + 1)) alts))
                       (\<lambda>types. ''('' @ join '' | '' types @ '')'')
                 | None \<Rightarrow> Some (Inr ''any''))))))"

section \<open>Reference definitions\<close>

text \<open>
  The Operation Namer as the specification words it, to be compared with
  \<open>generateOperationId\<close>. \<open>tokens\<close> cuts a segment at its word separators;
  \<open>spec_segment\<close> strips the braces, upper-cases the first letter of every token and
  joins the tokens with the separators gone. A segment counts as only a placeholder when
  no literal text stands before its opening brace.
\<close>

fun tokens :: "(char \<Rightarrow> bool) \<Rightarrow> string \<Rightarrow> string list" where
  "tokens sep [] = [[]]"
| "tokens sep (x # xs) =
     (if sep x then [] # tokens sep xs
      else (case tokens sep xs of [] \<Rightarrow> [[x]] | y # ys \<Rightarrow> (x # y) # ys))"

definition spec_segment :: "string \<Rightarrow> string" where
  "spec_segment seg =
     concat (map capitalize (tokens (\<lambda>c. c = CHR ''-'' \<or> c = CHR ''_'') (remove_braces seg)))"

definition spec_segments :: "string \<Rightarrow> string list" where
  "spec_segments path = filter (\<lambda>s. s \<noteq> [] \<and> \<not> startsWith s ''{'') (split CHR ''/'' path)"

definition spec_operationId :: "string \<Rightarrow> string \<Rightarrow> string" where
  "spec_operationId path verb =
     (if spec_segments path = [] then toLowerCase verb @ ''Root''
      else toLowerCase verb @ concat (map spec_segment (spec_segments path)))"

text \<open>
  The verbs a path item declares, in the fixed priority order and under the names the
  descriptors carry, alone and with their operations; and the parameters an operation
  sees, those of its path item first.
\<close>

definition declared_operations :: "pathItem \<Rightarrow> (string \<times> operation) list" where
  "declared_operations item =
     (case item_get item of None \<Rightarrow> [] | Some x \<Rightarrow> [(''GET'', x)]) @
     (case item_post item of None \<Rightarrow> [] | Some x \<Rightarrow> [(''POST'', x)]) @
     (case item_put item of None \<Rightarrow> [] | Some x \<Rightarrow> [(''PUT'', x)]) @
     (case item_delete item of None \<Rightarrow> [] | Some x \<Rightarrow> [(''DELETE'', x)]) @
     (case item_patch item of None \<Rightarrow> [] | Some x \<Rightarrow> [(''PATCH'', x)])"

definition declared_verbs :: "pathItem \<Rightarrow> string list" where
  "declared_verbs item = map fst (declared_operations item)"

definition all_parameters :: "pathItem \<Rightarrow> operation \<Rightarrow> parameter list" where
  "all_parameters item x = or_empty (item_parameters item) @ or_empty (op_parameters x)"

text \<open>The descriptors one verb and one path contribute.\<close>

definition method_endpoints ::
  "string \<Rightarrow> pathItem \<Rightarrow> string \<Rightarrow> operation option \<Rightarrow> endpointInfo list" where
  "method_endpoints p item m operation =
     (case operation of None \<Rightarrow> [] | Some x \<Rightarrow> [endpointOf p item m x])"

definition path_endpoints :: "string \<Rightarrow> pathItem \<Rightarrow> endpointInfo list" where
  "path_endpoints p item =
     concat (map (\<lambda>m. method_endpoints p item m (item_operation item m)) methods)"

section \<open>Example documents\<close>

definition empty_operation :: operation where
  "empty_operation =
     \<lparr> op_operationId = None, op_summary = None, op_description = None, op_parameters = None,
       op_requestBody = None, op_responses = [], op_tags = None \<rparr>"

definition empty_item :: pathItem where
  "empty_item =
     \<lparr> item_get = None, item_post = None, item_put = None, item_delete = None,
       item_patch = None, item_parameters = None \<rparr>"

text \<open>The path \<^verbatim>\<open>/users/{id}\<close> with a GET operation that declares no identifier.\<close>

definition users_id_spec :: openAPISpec where
  "users_id_spec =
     \<lparr> spec_paths = [(''/users/{id}'', empty_item \<lparr> item_get := Some empty_operation \<rparr>)] \<rparr>"

text \<open>A path item whose verbs are written in the order PATCH, DELETE, GET, with shared
  parameters in the header and in the path, and a GET operation with parameters of its own
  in the query and in a cookie; and a path item that declares no operation.\<close>

definition example_parameter :: "string \<Rightarrow> location \<Rightarrow> parameter" where
  "example_parameter n l =
     \<lparr> param_name = n, param_in = l, param_description = None, param_required = None,
       param_schema = None \<rparr>"

definition pets_spec :: openAPISpec where
  "pets_spec =
     \<lparr> spec_paths =
         [(''/pets/{petId}'',
           empty_item
             \<lparr> item_patch := Some empty_operation,
               item_delete := Some (empty_operation \<lparr> op_operationId := Some ''removePet'' \<rparr>),
               item_get := Some (empty_operation
                  \<lparr> op_parameters := Some [example_parameter ''limit'' Query,
                                            example_parameter ''session'' Cookie] \<rparr>),
               item_parameters := Some [example_parameter ''X-Trace'' Header,
                                        example_parameter ''petId'' Path] \<rparr>),
          (''/health'', empty_item)] \<rparr>"

definition health_spec :: openAPISpec where
  "health_spec = \<lparr> spec_paths = [(''/health'', empty_item)] \<rparr>"

text \<open>Schemas: \<^verbatim>\<open>{type: t}\<close>, \<^verbatim>\<open>{$ref: r}\<close>, the object with a mandatory
  \<^verbatim>\<open>name\<close> and an optional \<^verbatim>\<open>age\<close>, objects without properties whose
  \<^verbatim>\<open>additionalProperties\<close> is \<^verbatim>\<open>true\<close>, \<^verbatim>\<open>false\<close> and a string schema, composites
  with and without a \<^verbatim>\<open>type\<close>, an integer with an \<^verbatim>\<open>enum\<close>, and an object that
  declares the property \<^verbatim>\<open>b\<close> before the property \<^verbatim>\<open>1\<close>.\<close>

definition typed_schema :: "string \<Rightarrow> schema" where
  "typed_schema t = Schema (Some t) None None None None None None None None None None"

definition ref_schema :: "string \<Rightarrow> schema" where
  "ref_schema r = Schema None None None None None None None (Some r) None None None"

definition person_schema :: schema where
  "person_schema =
     Schema (Some ''object'') None None None
       (Some [(''name'', typed_schema ''string''), (''age'', typed_schema ''integer'')])
       (Some [''name'']) None None None None None"

definition open_object_schema :: schema where
  "open_object_schema =
     Schema (Some ''object'') None None None None None (Some (Inl True)) None None None None"

definition closed_object_schema :: schema where
  "closed_object_schema =
     Schema (Some ''object'') None None None None None (Some (Inl False)) None None None None"

definition string_map_schema :: schema where
  "string_map_schema =
     Schema (Some ''object'') None None None None None (Some (Inr (typed_schema ''string'')))
       None None None None"

definition string_or_integer_schema :: schema where
  "string_or_integer_schema =
     Schema None None None None None None None None None
       (Some [typed_schema ''string'', typed_schema ''integer'']) None"

definition any_of_schema :: schema where
  "any_of_schema =
     Schema None None None None None None None None None None
       (Some [typed_schema ''boolean'', typed_schema ''number''])"

definition all_and_one_schema :: schema where
  "all_and_one_schema =
     Schema None None None None None None None None
       (Some [ref_schema ''#/components/schemas/Pet'', ref_schema ''#/components/schemas/Tagged''])
       (Some [typed_schema ''string'', typed_schema ''integer'']) None"

definition object_allOf_schema :: schema where
  "object_allOf_schema =
     Schema (Some ''object'') None None None None None None None
       (Some [typed_schema ''string'']) None None"

definition integer_enum_schema :: schema where
  "integer_enum_schema =
     Schema (Some ''integer'') None (Some [''1'', ''2'']) None None None None None None None None"

text \<open>A schema with its \<^verbatim>\<open>enum\<close> field replaced, and one with its composite keys
  replaced.\<close>

definition with_composites ::
  "schema \<Rightarrow> schema list option \<Rightarrow> schema list option \<Rightarrow> schema list option \<Rightarrow> schema" where
  "with_composites s al on an =
     Schema (schema_type s) (schema_format s) (schema_enum s) (schema_items s)
       (schema_properties s) (schema_required s) (schema_additionalProperties s) (schema_ref s)
       al on an"


definition with_enum :: "schema \<Rightarrow> string list option \<Rightarrow> schema" where
  "with_enum s e =
     Schema (schema_type s) (schema_format s) e (schema_items s) (schema_properties s)
       (schema_required s) (schema_additionalProperties s) (schema_ref s) (schema_allOf s)
       (schema_oneOf s) (schema_anyOf s)"

text \<open>The values of \<^verbatim>\<open>type\<close> that \<open>schemaToType\<close> has a case for.\<close>

definition recognized_types :: "string list" where
  "recognized_types = [''string'', ''number'', ''integer'', ''boolean'', ''array'', ''object'']"

definition indexed_schema :: schema where
  "indexed_schema =
     Schema (Some ''object'') None None None
       (Some [(''b'', typed_schema ''string''), (''1'', typed_schema ''integer'')])
       None None None None None None"

text \<open>The self-referential component of the specification's scenario: a \<^verbatim>\<open>Node\<close> whose
  \<^verbatim>\<open>children\<close> are an array of \<^verbatim>\<open>Node\<close>. And a document without a cycle: a
  \<^verbatim>\<open>Pet\<close> that refers to its \<^verbatim>\<open>Owner\<close>, with the tree that inlining the reference
  gives.\<close>

definition node_components :: components where
  "node_components =
     [(''Node'',
       Schema (Some ''object'') None None None
         (Some [(''children'',
                 Schema (Some ''array'') None None
                   (Some (ref_schema ''#/components/schemas/Node''))
                   None None None None None None None)])
         None None None None None None)]"

definition owner_schema :: schema where
  "owner_schema =
     Schema (Some ''object'') None None None
       (Some [(''name'', typed_schema ''string'')]) None None None None None None"

definition pet_schema :: "schema \<Rightarrow> schema" where
  "pet_schema owner =
     Schema (Some ''object'') None None None
       (Some [(''owner'', owner),
              (''tags'', Schema (Some ''array'') None None (Some (typed_schema ''string''))
                           None None None None None None None)])
       (Some [''owner'']) None None None None None"

definition pet_components :: components where
  "pet_components =
     [(''Pet'', pet_schema (ref_schema ''#/components/schemas/Owner'')),
      (''Owner'', owner_schema)]"

text \<open>Responses: one without content, as for status 404, and one whose content has an
  entry but no schema. \<open>no_schema\<close> says that no entry of a content table carries a
  schema.\<close>

definition not_found_response :: response where
  "not_found_response =
     \<lparr> resp_ref = None, resp_description = Some ''Not found'', resp_content = None \<rparr>"

definition plain_text_response :: response where
  "plain_text_response =
     \<lparr> resp_ref = None, resp_description = None,
       resp_content = Some [(''application/xml'', None),
                            (''text/plain'', Some \<lparr> media_schema = None \<rparr>)] \<rparr>"

definition no_schema :: "content \<Rightarrow> bool" where
  "no_schema c = (\<forall>(k, m) \<in> set c. case m of None \<Rightarrow> True | Some x \<Rightarrow> media_schema x = None)"

section \<open>Properties of the string functions\<close>

lemmas case_simps = upper_char_def lower_char_def lower_letters_def upper_letters_def
  toUpperCase_def toLowerCase_def

lemmas namer_simps = generateOperationId_def pathParts_def startsWith_def remove_braces_def
  dashes_to_underscores_def capitalize_def charAt0_def slice1_def

lemma join_empty_sep: "join [] xs = concat xs"
  by (induction "[] :: string" xs rule: join.induct) auto

lemma split_not_empty: "split c xs \<noteq> []"
  by (induction xs) (auto split: list.splits)

lemma split_chars: "s \<in> set (split c xs) \<Longrightarrow> set s \<subseteq> set xs"
proof (induction xs arbitrary: s)
  case Nil
  then show ?case by simp
next
  case (Cons x xs)
  show ?case
  proof (cases "x = c")
    case True
    with Cons show ?thesis by auto
  next
    case False
    show ?thesis
    proof (cases "split c xs")
      case Nil
      with False Cons.prems show ?thesis by simp
    next
      case (Cons y ys)
      with False Cons.prems Cons.IH[of y] Cons.IH[of s] show ?thesis by auto
    qed
  qed
qed

lemma tokens_no_separator: "\<forall>c \<in> set s. \<not> sep c \<Longrightarrow> tokens sep s = [s]"
  by (induction s) auto

lemma spec_segment_plain:
  assumes "CHR ''-'' \<notin> set seg" "CHR ''_'' \<notin> set seg"
  shows "spec_segment seg = capitalize (dashes_to_underscores (remove_braces seg))"
proof -
  have "\<forall>c \<in> set (remove_braces seg). \<not> (c = CHR ''-'' \<or> c = CHR ''_'')"
    using assms by (auto simp: remove_braces_def)
  then have "tokens (\<lambda>c. c = CHR ''-'' \<or> c = CHR ''_'') (remove_braces seg) = [remove_braces seg]"
    by (rule tokens_no_separator)
  moreover have "dashes_to_underscores (remove_braces seg) = remove_braces seg"
    using assms by (auto simp: dashes_to_underscores_def remove_braces_def intro!: map_idI)
  ultimately show ?thesis by (simp add: spec_segment_def)
qed

section \<open>The Operation Namer\<close>

lemma generateOperationId_segments:
  "generateOperationId path verb =
     toLowerCase verb @
     (if spec_segments path = [] then ''Root''
      else concat (map (\<lambda>s. capitalize (dashes_to_underscores (remove_braces s)))
                       (spec_segments path)))"
  by (simp add: generateOperationId_def pathParts_def spec_segments_def join_empty_sep Let_def
        comp_def)

lemma generateOperationId_users_id: "generateOperationId ''/users/{id}'' ''GET'' = ''getUsers''"
  by (simp add: namer_simps case_simps)

text \<open>
  Claim C2, as stated, fails: on the path \<^verbatim>\<open>/user-profiles\<close> the reference definition
  gives \<^verbatim>\<open>getUserProfiles\<close>, one capital per token and no separator, and
  \<open>generateOperationId\<close> gives \<^verbatim>\<open>getUser_profiles\<close>.
\<close>

theorem generateOperationId_dash_counterexample:
  "generateOperationId ''/user-profiles'' ''GET'' \<noteq> spec_operationId ''/user-profiles'' ''GET''"
  by (simp add: namer_simps case_simps spec_operationId_def spec_segments_def spec_segment_def)

text \<open>
  Claim C2, amended. For every path pattern and verb, \<open>generateOperationId\<close> is the
  lower-cased verb followed by \<^verbatim>\<open>Root\<close> when no segment survives, and otherwise by the
  surviving segments in path order (the segments that are not empty and do not begin with
  an opening brace), each with its braces stripped, every dash turned into an underscore
  and its first character alone upper-cased; underscores stay. On a path pattern with no
  dash and no underscore this is the reference definition.
\<close>

theorem generateOperationId_reference:
  "generateOperationId path verb =
     toLowerCase verb @
     (if spec_segments path = [] then ''Root''
      else concat (map (\<lambda>s. capitalize (dashes_to_underscores (remove_braces s)))
                       (spec_segments path)))
   \<and> (CHR ''-'' \<notin> set path \<and> CHR ''_'' \<notin> set path \<longrightarrow>
        generateOperationId path verb = spec_operationId path verb)"
proof (rule conjI, rule generateOperationId_segments, rule impI)
  assume plain: "CHR ''-'' \<notin> set path \<and> CHR ''_'' \<notin> set path"
  have eq: "map spec_segment (spec_segments path) =
        map (\<lambda>s. capitalize (dashes_to_underscores (remove_braces s))) (spec_segments path)"
  proof (rule map_cong[OF refl])
    fix s assume "s \<in> set (spec_segments path)"
    then have "set s \<subseteq> set path"
      by (auto simp: spec_segments_def dest: split_chars)
    with plain show "spec_segment s = capitalize (dashes_to_underscores (remove_braces s))"
      by (intro spec_segment_plain) auto
  qed
  show "generateOperationId path verb = spec_operationId path verb"
    unfolding generateOperationId_segments spec_operationId_def eq by simp
qed

theorem generateOperationId_reference_witness:
  "CHR ''-'' \<notin> set ''/users/{id}/posts'' \<and> CHR ''_'' \<notin> set ''/users/{id}/posts'' \<and>
   generateOperationId ''/users/{id}/posts'' ''GET'' = spec_operationId ''/users/{id}/posts'' ''GET'' \<and>
   spec_operationId ''/users/{id}/posts'' ''GET'' = ''getUsersPosts''"
  using generateOperationId_reference[of "''/users/{id}/posts''" "''GET''"]
  by (simp add: case_simps spec_operationId_def spec_segments_def spec_segment_def startsWith_def
        remove_braces_def capitalize_def charAt0_def slice1_def dashes_to_underscores_def)

section \<open>The Endpoint Extractor\<close>

lemma foldl_method_step:
  "foldl (method_step p item) acc ms =
     acc @ concat (map (\<lambda>m. method_endpoints p item m (item_operation item m)) ms)"
  by (induction ms arbitrary: acc)
     (auto simp: method_step_def method_endpoints_def split: option.splits)

lemma path_step_endpoints: "path_step acc (p, item) = acc @ path_endpoints p item"
  by (simp add: path_step_def path_endpoints_def foldl_method_step)

lemma foldl_path_step:
  "foldl path_step acc ps = acc @ concat (map (\<lambda>(p, item). path_endpoints p item) ps)"
  by (induction ps arbitrary: acc) (auto simp: path_step_endpoints)

lemma extractEndpoints_concat:
  "extractEndpoints spec = concat (map (\<lambda>(p, item). path_endpoints p item) (spec_paths spec))"
  by (simp add: extractEndpoints_def foldl_path_step)

lemma item_operation_simps:
  "item_operation item ''get'' = item_get item"
  "item_operation item ''post'' = item_post item"
  "item_operation item ''put'' = item_put item"
  "item_operation item ''delete'' = item_delete item"
  "item_operation item ''patch'' = item_patch item"
  by (simp_all add: item_operation_def)

lemma toUpperCase_methods:
  "toUpperCase ''get'' = ''GET''"
  "toUpperCase ''post'' = ''POST''"
  "toUpperCase ''put'' = ''PUT''"
  "toUpperCase ''delete'' = ''DELETE''"
  "toUpperCase ''patch'' = ''PATCH''"
  by (simp_all add: case_simps)

lemma path_endpoints_unfold:
  "path_endpoints p item =
     method_endpoints p item ''get'' (item_get item) @
     method_endpoints p item ''post'' (item_post item) @
     method_endpoints p item ''put'' (item_put item) @
     method_endpoints p item ''delete'' (item_delete item) @
     method_endpoints p item ''patch'' (item_patch item)"
  by (simp add: path_endpoints_def methods_def item_operation_simps)

lemma endpointOf_fields:
  "ep_path (endpointOf p item m x) = p"
  "ep_method (endpointOf p item m x) = toUpperCase m"
  "ep_operationId (endpointOf p item m x) =
     or_else (op_operationId x) (generateOperationId p (toUpperCase m))"
  "ep_pathParams (endpointOf p item m x) =
     filter (\<lambda>q. param_in q = Path) (all_parameters item x)"
  "ep_queryParams (endpointOf p item m x) =
     filter (\<lambda>q. param_in q = Query) (all_parameters item x)"
  by (simp_all add: endpointOf_def Let_def all_parameters_def)

text \<open>Any view \<open>f\<close> of the descriptors that depends on the path, the path item, the
  upper-cased verb and the operation only can be read off the declared operations.\<close>

lemma method_endpoints_view:
  assumes "\<And>x. f (endpointOf p item m x) = g (toUpperCase m) x"
  shows "map f (method_endpoints p item m ox) =
           (case ox of None \<Rightarrow> [] | Some x \<Rightarrow> [g (toUpperCase m) x])"
  using assms by (cases ox) (simp_all add: method_endpoints_def)

lemma path_endpoints_view:
  assumes "\<And>m x. f (endpointOf p item m x) = g (toUpperCase m) x"
  shows "map f (path_endpoints p item) = map (\<lambda>(v, x). g v x) (declared_operations item)"
  by (simp add: path_endpoints_unfold method_endpoints_view[where f = f and g = g, OF assms]
        toUpperCase_methods declared_operations_def split: option.splits)

lemma extractEndpoints_view:
  assumes "\<And>p item m x. f (endpointOf p item m x) = g p item (toUpperCase m) x"
  shows "map f (extractEndpoints spec) =
           concat (map (\<lambda>(p, item). map (\<lambda>(v, x). g p item v x) (declared_operations item))
                       (spec_paths spec))"
proof -
  have "map f (path_endpoints p item) = map (\<lambda>(v, x). g p item v x) (declared_operations item)"
    for p item
    by (rule path_endpoints_view) (rule assms)
  then show ?thesis
    by (simp add: extractEndpoints_concat map_concat comp_def case_prod_unfold)
qed

lemma extractEndpoints_member:
  assumes "e \<in> set (extractEndpoints spec)"
  shows "\<exists>p item m x. (p, item) \<in> set (spec_paths spec) \<and> item_operation item m = Some x \<and>
           e = endpointOf p item m x"
proof -
  from assms obtain p item m where in_paths: "(p, item) \<in> set (spec_paths spec)"
    and e: "e \<in> set (method_endpoints p item m (item_operation item m))"
    by (auto simp: extractEndpoints_concat path_endpoints_def)
  from e obtain x where "item_operation item m = Some x" "e = endpointOf p item m x"
    by (cases "item_operation item m") (auto simp: method_endpoints_def)
  with in_paths show ?thesis by blast
qed

lemmas example_simps = pets_spec_def health_spec_def users_id_spec_def empty_item_def
  empty_operation_def example_parameter_def declared_operations_def declared_verbs_def
  all_parameters_def or_empty_def

text \<open>
  Claim C3, as stated, fails on its scenario: for the path \<^verbatim>\<open>/users/{id}\<close> with a GET
  operation that declares no identifier the descriptor extracted is named
  \<^verbatim>\<open>getUsers\<close>, since the Namer drops the placeholder segment; it is not
  \<^verbatim>\<open>getUsersId\<close>.
\<close>

theorem extractEndpoints_users_id_counterexample:
  "map ep_operationId (extractEndpoints users_id_spec) \<noteq> [''getUsersId'']"
  by (simp add: extractEndpoints_concat path_endpoints_unfold method_endpoints_def
        users_id_spec_def empty_item_def empty_operation_def endpointOf_fields or_else_def
        toUpperCase_methods generateOperationId_users_id)

text \<open>
  Claim C3, amended. For every document, the identifiers of the descriptors are, path by
  path and verb by verb, the declared identifier of the operation when it is present and
  not empty, and otherwise the Namer's result for the path pattern and the upper-cased
  verb; for the path \<^verbatim>\<open>/users/{id}\<close> and GET the Namer's result is \<^verbatim>\<open>getUsers\<close>.
\<close>

theorem extractEndpoints_operationId:
  "map ep_operationId (extractEndpoints spec) =
     concat (map (\<lambda>(p, item).
                    map (\<lambda>(v, x). case op_operationId x of
                                     None \<Rightarrow> generateOperationId p v
                                   | Some d \<Rightarrow> if d = [] then generateOperationId p v else d)
                        (declared_operations item))
                 (spec_paths spec))
   \<and> generateOperationId ''/users/{id}'' ''GET'' = ''getUsers''"
proof
  show "map ep_operationId (extractEndpoints spec) =
     concat (map (\<lambda>(p, item).
                    map (\<lambda>(v, x). case op_operationId x of
                                     None \<Rightarrow> generateOperationId p v
                                   | Some d \<Rightarrow> if d = [] then generateOperationId p v else d)
                        (declared_operations item))
                 (spec_paths spec))"
    by (rule extractEndpoints_view) (simp add: endpointOf_fields or_else_def)
qed (rule generateOperationId_users_id)

theorem extractEndpoints_operationId_witness:
  "map ep_operationId (extractEndpoints users_id_spec) = [''getUsers'']"
  using extractEndpoints_operationId[of users_id_spec]
  by (simp add: example_simps)

text \<open>
  Claim C5. For every document, the descriptors follow the path table in its order, and
  within one path the verbs that path item declares in the fixed order GET, POST, PUT,
  DELETE, PATCH: paired with their path they are, path by path, \<open>declared_verbs\<close>. The
  order in which a path item was written plays no part, the verbs being looked up by name
  in the order of \<open>methods\<close>. A document whose path items declare no operation yields no
  descriptor, and no failure.
\<close>

theorem extractEndpoints_order:
  "map (\<lambda>e. (ep_path e, ep_method e)) (extractEndpoints spec) =
     concat (map (\<lambda>(p, item). map (Pair p) (declared_verbs item)) (spec_paths spec))
   \<and> ((\<forall>(p, item) \<in> set (spec_paths spec).
          item_get item = None \<and> item_post item = None \<and> item_put item = None \<and>
          item_delete item = None \<and> item_patch item = None) \<longrightarrow>
        extractEndpoints spec = [])"
proof
  have "map (\<lambda>e. (ep_path e, ep_method e)) (extractEndpoints spec) =
          concat (map (\<lambda>(p, item). map (\<lambda>(v, x). (p, v)) (declared_operations item))
                      (spec_paths spec))"
    by (rule extractEndpoints_view) (simp add: endpointOf_fields)
  then show "map (\<lambda>e. (ep_path e, ep_method e)) (extractEndpoints spec) =
     concat (map (\<lambda>(p, item). map (Pair p) (declared_verbs item)) (spec_paths spec))"
    by (simp add: declared_verbs_def comp_def case_prod_unfold)
next
  show "(\<forall>(p, item) \<in> set (spec_paths spec).
          item_get item = None \<and> item_post item = None \<and> item_put item = None \<and>
          item_delete item = None \<and> item_patch item = None) \<longrightarrow>
        extractEndpoints spec = []"
    by (auto simp: extractEndpoints_concat path_endpoints_unfold method_endpoints_def)
qed

theorem extractEndpoints_order_witness:
  "map (\<lambda>e. (ep_path e, ep_method e)) (extractEndpoints pets_spec) =
     [(''/pets/{petId}'', ''GET''), (''/pets/{petId}'', ''DELETE''), (''/pets/{petId}'', ''PATCH'')]
   \<and> extractEndpoints health_spec = []"
proof -
  have "\<forall>(p, item) \<in> set (spec_paths health_spec).
          item_get item = None \<and> item_post item = None \<and> item_put item = None \<and>
          item_delete item = None \<and> item_patch item = None"
    by (simp add: health_spec_def empty_item_def)
  with extractEndpoints_order[of health_spec] have "extractEndpoints health_spec = []"
    by blast
  moreover have "map (\<lambda>e. (ep_path e, ep_method e)) (extractEndpoints pets_spec) =
     [(''/pets/{petId}'', ''GET''), (''/pets/{petId}'', ''DELETE''), (''/pets/{petId}'', ''PATCH'')]"
    using extractEndpoints_order[of pets_spec] by (simp add: example_simps)
  ultimately show ?thesis by simp
qed

text \<open>
  Claim C6. For every document, the two parameter lists of the descriptors are, path by
  path and verb by verb, the parameters of location \<open>Path\<close> and those of location
  \<open>Query\<close> among the shared parameters of the path item followed by the operation's own,
  in that order; no parameter of location \<open>Header\<close> or \<open>Cookie\<close> is in either list.
\<close>

theorem extractEndpoints_parameters:
  "map (\<lambda>e. (ep_pathParams e, ep_queryParams e)) (extractEndpoints spec) =
     concat (map (\<lambda>(p, item).
                    map (\<lambda>(v, x). (filter (\<lambda>q. param_in q = Path) (all_parameters item x),
                                    filter (\<lambda>q. param_in q = Query) (all_parameters item x)))
                        (declared_operations item))
                 (spec_paths spec))
   \<and> (\<forall>e \<in> set (extractEndpoints spec). \<forall>q \<in> set (ep_pathParams e @ ep_queryParams e).
         param_in q \<noteq> Header \<and> param_in q \<noteq> Cookie)"
proof
  show "map (\<lambda>e. (ep_pathParams e, ep_queryParams e)) (extractEndpoints spec) =
     concat (map (\<lambda>(p, item).
                    map (\<lambda>(v, x). (filter (\<lambda>q. param_in q = Path) (all_parameters item x),
                                    filter (\<lambda>q. param_in q = Query) (all_parameters item x)))
                        (declared_operations item))
                 (spec_paths spec))"
    by (rule extractEndpoints_view) (simp add: endpointOf_fields)
next
  show "\<forall>e \<in> set (extractEndpoints spec). \<forall>q \<in> set (ep_pathParams e @ ep_queryParams e).
         param_in q \<noteq> Header \<and> param_in q \<noteq> Cookie"
  proof (intro ballI)
    fix e q
    assume "e \<in> set (extractEndpoints spec)" and q: "q \<in> set (ep_pathParams e @ ep_queryParams e)"
    then obtain p item m x where "e = endpointOf p item m x"
      using extractEndpoints_member by blast
    with q show "param_in q \<noteq> Header \<and> param_in q \<noteq> Cookie"
      by (auto simp: endpointOf_fields)
  qed
qed

theorem extractEndpoints_parameters_witness:
  "map (\<lambda>e. (map param_name (ep_pathParams e), map param_name (ep_queryParams e)))
       (extractEndpoints pets_spec) =
     [([''petId''], [''limit'']), ([''petId''], []), ([''petId''], [])]
   \<and> map (\<lambda>e. map param_in (ep_pathParams e @ ep_queryParams e)) (extractEndpoints pets_spec) =
     [[Path, Query], [Path], [Path]]"
proof -
  note main = extractEndpoints_parameters[of pets_spec]
  have params: "map (\<lambda>e. (ep_pathParams e, ep_queryParams e)) (extractEndpoints pets_spec) =
      [([example_parameter ''petId'' Path], [example_parameter ''limit'' Query]),
       ([example_parameter ''petId'' Path], []), ([example_parameter ''petId'' Path], [])]"
    using main by (simp add: example_simps)
  have "map (\<lambda>e. (map param_name (ep_pathParams e), map param_name (ep_queryParams e)))
          (extractEndpoints pets_spec) =
        map (\<lambda>(a, b). (map param_name a, map param_name b))
          (map (\<lambda>e. (ep_pathParams e, ep_queryParams e)) (extractEndpoints pets_spec))"
    by simp
  also have "\<dots> = [([''petId''], [''limit'']), ([''petId''], []), ([''petId''], [])]"
    unfolding params by (simp add: example_parameter_def)
  finally have names: "map (\<lambda>e. (map param_name (ep_pathParams e), map param_name (ep_queryParams e)))
          (extractEndpoints pets_spec) =
        [([''petId''], [''limit'']), ([''petId''], []), ([''petId''], [])]" .
  have "map (\<lambda>e. map param_in (ep_pathParams e @ ep_queryParams e)) (extractEndpoints pets_spec) =
        map (\<lambda>(a, b). map param_in (a @ b))
          (map (\<lambda>e. (ep_pathParams e, ep_queryParams e)) (extractEndpoints pets_spec))"
    by simp
  also have "\<dots> = [[Path, Query], [Path], [Path]]"
    unfolding params by (simp add: example_parameter_def)
  finally show ?thesis using names by simp
qed

section \<open>The Schema-to-Type Projector\<close>

lemmas schema_examples = typed_schema_def ref_schema_def person_schema_def open_object_schema_def
  closed_object_schema_def string_map_schema_def string_or_integer_schema_def any_of_schema_def
  all_and_one_schema_def object_allOf_schema_def integer_enum_schema_def empty_schema_def
  indexed_schema_def

lemma all_results_map_Inr: "all_results (map Inr ts) = Inr ts"
  by (induction ts) auto

lemma all_results_fields:
  assumes "map (\<lambda>(k, v). f v) ps = map Inr ts"
  shows "all_results (map (\<lambda>(k, v). case f v of Inl e \<Rightarrow> Inl e | Inr t \<Rightarrow> Inr (g k t)) ps) =
           Inr (map (\<lambda>((k, v), t). g k t) (zip ps ts))"
  using assms
proof (induction ps arbitrary: ts)
  case Nil
  then show ?case by simp
next
  case (Cons p ps)
  then obtain t ts' where ts: "ts = t # ts'" by (cases ts) auto
  obtain k v where p: "p = (k, v)" by (cases p)
  from Cons.prems ts p have "f v = Inr t" "map (\<lambda>(k, v). f v) ps = map Inr ts'" by auto
  with Cons.IH[of ts'] ts p show ?case by simp
qed

text \<open>
  Claim C4 fails on the code, which misses a case. For an object schema without
  properties the projector tests \<^verbatim>\<open>additionalProperties === false\<close> and then passes
  any other value that is not falsy to itself as a schema; the value \<^verbatim>\<open>true\<close>, which
  the declared type \<^verbatim>\<open>boolean | Schema\<close> admits, reaches \<open>isRef\<close>, where
  \<^verbatim>\<open>'$ref' in true\<close> throws a \<^verbatim>\<open>TypeError\<close>. So the schema
  \<^verbatim>\<open>{type: 'object', additionalProperties: true}\<close> has no type expression.
\<close>

theorem schemaToType_additionalProperties_true_throws:
  "schemaToType (Object open_object_schema) 0 = Inl TypeError"
  by (simp add: open_object_schema_def)

lemmas entries_simps = object_entries_def array_index_def digit_value_def

lemma object_entries_set: "set (object_entries kvs) = set kvs"
  by (auto simp: object_entries_def)

lemma object_entries_plain:
  assumes "\<forall>(k, v) \<in> set kvs. array_index k = None"
  shows "object_entries kvs = kvs"
proof -
  from assms have "filter (\<lambda>(k, v). array_index k \<noteq> None) kvs = []"
    by (auto simp: filter_empty_conv)
  moreover from assms have "filter (\<lambda>(k, v). array_index k = None) kvs = kvs"
    by (auto simp: filter_id_conv)
  ultimately show ?thesis by (simp add: object_entries_def)
qed

lemma object_entries_single: "object_entries [(k, v)] = [(k, v)]"
  by (simp add: object_entries_def)

lemma indexed_entries:
  "object_entries [(''b'', x), (''1'', y)] = [(''1'', y), (''b'', x)]"
  by (simp add: entries_simps)

text \<open>
  Claim C7, as stated, fails on the order of the fields. The projector lists the
  properties in the order of \<^verbatim>\<open>Object.entries\<close>, which puts the names that are array
  indices first: the object that declares \<^verbatim>\<open>b\<close> and then \<^verbatim>\<open>1\<close> is projected to
  the record that lists \<^verbatim>\<open>1\<close> and then \<^verbatim>\<open>b\<close>.
\<close>

theorem schemaToType_object_key_order_counterexample:
  "schema_type indexed_schema = Some ''object'' \<and> schema_ref indexed_schema = None \<and>
   schema_properties indexed_schema =
     Some [(''b'', typed_schema ''string''), (''1'', typed_schema ''integer'')] \<and>
   schemaToType (Object indexed_schema) 0 = Inr ''{\<newline>  1?: number;\<newline>  b?: string;\<newline>}'' \<and>
   schemaToType (Object indexed_schema) 0 \<noteq> Inr ''{\<newline>  b?: string;\<newline>  1?: number;\<newline>}''"
  by (simp add: indexed_schema_def typed_schema_def indexed_entries repeat_def or_empty_def)

text \<open>
  Claim C7, amended. For every schema node of type \<^verbatim>\<open>object\<close> (a node that is a
  reference is projected by its name before its type is read): without properties and
  with \<^verbatim>\<open>additionalProperties\<close> \<^verbatim>\<open>false\<close> the projection is the empty-record type;
  without properties and with a schema as \<^verbatim>\<open>additionalProperties\<close> whose projection,
  at the same depth, is \<open>t\<close>, it is the open map from string to \<open>t\<close>; without either it
  is the open map of unknown value type; with properties whose schemas project, one level
  deeper, to the types \<open>ts\<close>, it is the record that lists the properties in the order of
  \<open>object_entries\<close> (the names that are array indices first, in ascending numeric order,
  then the other names in declaration order), each with its type and marked optional
  exactly when its name is not in the required list; when no property name is an array
  index, that order is the declaration order.
\<close>

theorem schemaToType_object:
  assumes "schema_type s = Some ''object''" and "schema_ref s = None"
  shows "(schema_properties s = None \<and> schema_additionalProperties s = Some (Inl False) \<longrightarrow>
            schemaToType (Object s) indent = Inr ''Record<string, never>'')
       \<and> (\<forall>a t. schema_properties s = None \<and> schema_additionalProperties s = Some (Inr a) \<and>
              schemaToType (Object a) indent = Inr t \<longrightarrow>
            schemaToType (Object s) indent = Inr (''Record<string, '' @ t @ ''>''))
       \<and> (schema_properties s = None \<and> schema_additionalProperties s = None \<longrightarrow>
            schemaToType (Object s) indent = Inr ''Record<string, any>'')
       \<and> (\<forall>props ts. schema_properties s = Some props \<and>
              map (\<lambda>(key, value). schemaToType (Object value) (indent + 1)) (object_entries props)
                = map Inr ts \<longrightarrow>
            schemaToType (Object s) indent =
              Inr (''{\<newline>''
                   @ join ''\<newline>''
                       (map (\<lambda>((key, value), t).
                               repeat ''  '' indent @ ''  '' @ key
                               @ (if key \<in> set (or_empty (schema_required s)) then [] else ''?'')
                               @ '': '' @ t @ '';'')
                            (zip (object_entries props) ts))
                   @ ''\<newline>'' @ repeat ''  '' indent @ ''}''))
       \<and> (\<forall>props ts. schema_properties s = Some props \<and>
              (\<forall>(key, value) \<in> set props. array_index key = None) \<and>
              map (\<lambda>(key, value). schemaToType (Object value) (indent + 1)) props = map Inr ts \<longrightarrow>
            schemaToType (Object s) indent =
              Inr (''{\<newline>''
                   @ join ''\<newline>''
                       (map (\<lambda>((key, value), t).
                               repeat ''  '' indent @ ''  '' @ key
                               @ (if key \<in> set (or_empty (schema_required s)) then [] else ''?'')
                               @ '': '' @ t @ '';'')
                            (zip props ts))
                   @ ''\<newline>'' @ repeat ''  '' indent @ ''}''))"
proof (cases s)
  case (Schema ty fmt en it pr rq ap rf al on an)
  with assms have ty: "ty = Some ''object''" and rf: "rf = None" by simp_all
  have entries: "\<forall>props ts. pr = Some props \<and>
              map (\<lambda>(key, value). schemaToType (Object value) (indent + 1)) (object_entries props)
                = map Inr ts \<longrightarrow>
            schemaToType (Object s) indent =
              Inr (''{\<newline>''
                   @ join ''\<newline>''
                       (map (\<lambda>((key, value), t).
                               repeat ''  '' indent @ ''  '' @ key
                               @ (if key \<in> set (or_empty rq) then [] else ''?'')
                               @ '': '' @ t @ '';'')
                            (zip (object_entries props) ts))
                   @ ''\<newline>'' @ repeat ''  '' indent @ ''}'')"
    unfolding Schema by (simp add: ty rf all_results_fields Let_def)
  have plain: "\<forall>props ts. pr = Some props \<and>
              (\<forall>(key, value) \<in> set props. array_index key = None) \<and>
              map (\<lambda>(key, value). schemaToType (Object value) (indent + 1)) props = map Inr ts \<longrightarrow>
            schemaToType (Object s) indent =
              Inr (''{\<newline>''
                   @ join ''\<newline>''
                       (map (\<lambda>((key, value), t).
                               repeat ''  '' indent @ ''  '' @ key
                               @ (if key \<in> set (or_empty rq) then [] else ''?'')
                               @ '': '' @ t @ '';'')
                            (zip props ts))
                   @ ''\<newline>'' @ repeat ''  '' indent @ ''}'')"
  proof (intro allI impI, elim conjE)
    fix props ts
    assume pr: "pr = Some props" and idx: "\<forall>(key, value) \<in> set props. array_index key = None"
      and ts: "map (\<lambda>(key, value). schemaToType (Object value) (indent + 1)) props = map Inr ts"
    from idx have "object_entries props = props" by (rule object_entries_plain)
    with entries pr ts show "schemaToType (Object s) indent =
              Inr (''{\<newline>''
                   @ join ''\<newline>''
                       (map (\<lambda>((key, value), t).
                               repeat ''  '' indent @ ''  '' @ key
                               @ (if key \<in> set (or_empty rq) then [] else ''?'')
                               @ '': '' @ t @ '';'')
                            (zip props ts))
                   @ ''\<newline>'' @ repeat ''  '' indent @ ''}'')"
      by simp
  qed
  have rest: "(pr = None \<and> ap = Some (Inl False) \<longrightarrow>
            schemaToType (Object s) indent = Inr ''Record<string, never>'')
       \<and> (\<forall>a t. pr = None \<and> ap = Some (Inr a) \<and> schemaToType (Object a) indent = Inr t \<longrightarrow>
            schemaToType (Object s) indent = Inr (''Record<string, '' @ t @ ''>''))
       \<and> (pr = None \<and> ap = None \<longrightarrow> schemaToType (Object s) indent = Inr ''Record<string, any>'')"
    unfolding Schema by (simp add: ty rf)
  from rest entries plain show ?thesis unfolding Schema by simp
qed



theorem schemaToType_object_witness:
  "schemaToType (Object closed_object_schema) 0 = Inr ''Record<string, never>'' \<and>
   schemaToType (Object string_map_schema) 0 = Inr ''Record<string, string>'' \<and>
   schemaToType (Object (typed_schema ''object'')) 0 = Inr ''Record<string, any>'' \<and>
   schemaToType (Object person_schema) 0 =
     Inr ''{\<newline>  name: string;\<newline>  age?: number;\<newline>}'' \<and>
   schemaToType (Object indexed_schema) 0 =
     Inr ''{\<newline>  1?: number;\<newline>  b?: string;\<newline>}''"
proof -
  have a: "schemaToType (Object closed_object_schema) 0 = Inr ''Record<string, never>''"
    using schemaToType_object[of closed_object_schema 0] by (simp add: closed_object_schema_def)
  have "schemaToType (Object (typed_schema ''string'')) 0 = Inr ''string''"
    by (simp add: typed_schema_def)
  with schemaToType_object[of string_map_schema 0]
  have b: "schemaToType (Object string_map_schema) 0 = Inr (''Record<string, '' @ ''string'' @ ''>'')"
    by (simp add: string_map_schema_def)
  have c: "schemaToType (Object (typed_schema ''object'')) 0 = Inr ''Record<string, any>''"
    using schemaToType_object[of "typed_schema ''object''" 0] by (simp add: typed_schema_def)
  have props: "schema_properties person_schema =
      Some [(''name'', typed_schema ''string''), (''age'', typed_schema ''integer'')]"
    and req: "schema_required person_schema = Some [''name'']"
    and ty: "schema_type person_schema = Some ''object''" "schema_ref person_schema = None"
    by (simp_all add: person_schema_def)
  have plain: "\<forall>(key, value) \<in> set [(''name'', typed_schema ''string''),
                                       (''age'', typed_schema ''integer'')].
                 array_index key = None"
    by (simp add: array_index_def digit_value_def)
  have ts: "map (\<lambda>(key, value). schemaToType (Object value) (0 + 1))
              [(''name'', typed_schema ''string''), (''age'', typed_schema ''integer'')] =
            map Inr [''string'', ''number'']"
    by (simp add: typed_schema_def)
  from schemaToType_object[OF ty, of 0] props plain ts
  have "schemaToType (Object person_schema) 0 =
        Inr (''{\<newline>''
             @ join ''\<newline>''
                 (map (\<lambda>((key, value), t).
                         repeat ''  '' 0 @ ''  '' @ key
                         @ (if key \<in> set (or_empty (schema_required person_schema)) then [] else ''?'')
                         @ '': '' @ t @ '';'')
                      (zip [(''name'', typed_schema ''string''), (''age'', typed_schema ''integer'')]
                           [''string'', ''number'']))
             @ ''\<newline>'' @ repeat ''  '' 0 @ ''}'')"
    by blast
  then have d: "schemaToType (Object person_schema) 0 =
     Inr ''{\<newline>  name: string;\<newline>  age?: number;\<newline>}''"
    by (simp add: req or_empty_def repeat_def)
  have iprops: "schema_properties indexed_schema =
      Some [(''b'', typed_schema ''string''), (''1'', typed_schema ''integer'')]"
    and ireq: "schema_required indexed_schema = None"
    and ity: "schema_type indexed_schema = Some ''object''" "schema_ref indexed_schema = None"
    by (simp_all add: indexed_schema_def)
  have its: "map (\<lambda>(key, value). schemaToType (Object value) (0 + 1))
              (object_entries [(''b'', typed_schema ''string''), (''1'', typed_schema ''integer'')]) =
            map Inr [''number'', ''string'']"
    by (simp add: typed_schema_def indexed_entries)
  from schemaToType_object[OF ity, of 0] iprops its
  have "schemaToType (Object indexed_schema) 0 =
        Inr (''{\<newline>''
             @ join ''\<newline>''
                 (map (\<lambda>((key, value), t).
                         repeat ''  '' 0 @ ''  '' @ key
                         @ (if key \<in> set (or_empty (schema_required indexed_schema)) then [] else ''?'')
                         @ '': '' @ t @ '';'')
                      (zip (object_entries [(''b'', typed_schema ''string''),
                                            (''1'', typed_schema ''integer'')])
                           [''number'', ''string'']))
             @ ''\<newline>'' @ repeat ''  '' 0 @ ''}'')"
    by blast
  then have e: "schemaToType (Object indexed_schema) 0 =
     Inr ''{\<newline>  1?: number;\<newline>  b?: string;\<newline>}''"
    by (simp add: ireq or_empty_def repeat_def indexed_entries)
  from a b c d e show ?thesis by simp
qed

text \<open>
  Claim C8, as stated, fails on a node that carries composite keys beside a recognised
  \<^verbatim>\<open>type\<close>: the composite keys are read in the default branch of the switch on the
  type only, and \<^verbatim>\<open>{type: 'object', allOf: [{type: 'string'}]}\<close> is projected to the
  open map \<^verbatim>\<open>Record<string, any>\<close>, not to the intersection of its alternatives.
\<close>

theorem schemaToType_typed_composite_counterexample:
  "schema_allOf object_allOf_schema = Some [typed_schema ''string''] \<and>
   map (\<lambda>a. schemaToType (Object a) 1) [typed_schema ''string''] = map Inr [''string''] \<and>
   schemaToType (Object object_allOf_schema) 0 \<noteq> Inr (join '' & '' [''string''])"
  by (simp add: schema_examples)

lemma schemaToType_composites_unread:
  assumes "ty = Some t" and "t \<in> set recognized_types"
  shows "schemaToType (Object (Schema ty fmt en it pr rq ap rf al on an)) indent =
         schemaToType (Object (Schema ty fmt en it pr rq ap rf al' on' an')) indent"
proof -
  from assms(2) have "t = ''string'' \<or> t = ''number'' \<or> t = ''integer'' \<or> t = ''boolean'' \<or>
      t = ''array'' \<or> t = ''object''"
    by (simp add: recognized_types_def)
  then show ?thesis
    unfolding assms(1) by (elim disjE) (simp_all cong: option.case_cong)
qed

text \<open>
  Claim C8, amended. For every schema node that is not a reference. When its type is
  absent or is none of the six recognised ones: if \<^verbatim>\<open>allOf\<close> is present and its
  alternatives project, one level deeper, to the types \<open>ts\<close>, the projection is \<open>ts\<close>
  joined by \<^verbatim>\<open>&\<close> in the declared order, whatever \<^verbatim>\<open>oneOf\<close> and \<^verbatim>\<open>anyOf\<close> hold;
  if \<^verbatim>\<open>allOf\<close> is absent, the alternatives of \<^verbatim>\<open>oneOf\<close>, or of \<^verbatim>\<open>anyOf\<close> when
  \<^verbatim>\<open>oneOf\<close> is absent too, projecting to \<open>ts\<close>, the projection is \<open>ts\<close> joined by
  \<^verbatim>\<open>|\<close> in the declared order, in parentheses. When its type is one of the six
  recognised ones, the composite keys are not read: the projection is the same whatever
  \<^verbatim>\<open>allOf\<close>, \<^verbatim>\<open>oneOf\<close> and \<^verbatim>\<open>anyOf\<close> hold.
\<close>

theorem schemaToType_composite:
  assumes "schema_ref s = None"
  shows "((\<forall>t \<in> set recognized_types. schema_type s \<noteq> Some t) \<longrightarrow>
            (\<forall>alts ts. schema_allOf s = Some alts \<and>
                map (\<lambda>a. schemaToType (Object a) (indent + 1)) alts = map Inr ts \<longrightarrow>
              schemaToType (Object s) indent = Inr (join '' & '' ts))
          \<and> (\<forall>alts ts. schema_allOf s = None \<and>
                (schema_oneOf s = Some alts \<or> schema_oneOf s = None \<and> schema_anyOf s = Some alts) \<and>
                map (\<lambda>a. schemaToType (Object a) (indent + 1)) alts = map Inr ts \<longrightarrow>
              schemaToType (Object s) indent = Inr (''('' @ join '' | '' ts @ '')'')))
       \<and> ((\<exists>t \<in> set recognized_types. schema_type s = Some t) \<longrightarrow>
            (\<forall>al on an. schemaToType (Object (with_composites s al on an)) indent =
                         schemaToType (Object s) indent))"
proof (cases s)
  case (Schema ty fmt en it pr rq ap rf al on an)
  with assms have rf: "rf = None" by simp
  show ?thesis
  proof (intro conjI impI)
    assume "\<forall>t \<in> set recognized_types. schema_type s \<noteq> Some t"
    then have ty: "ty \<noteq> Some ''string''" "ty \<noteq> Some ''number''" "ty \<noteq> Some ''integer''"
      "ty \<noteq> Some ''boolean''" "ty \<noteq> Some ''array''" "ty \<noteq> Some ''object''"
      by (simp_all add: Schema recognized_types_def)
    show "\<forall>alts ts. schema_allOf s = Some alts \<and>
                map (\<lambda>a. schemaToType (Object a) (indent + 1)) alts = map Inr ts \<longrightarrow>
              schemaToType (Object s) indent = Inr (join '' & '' ts)"
      unfolding Schema by (auto simp add: ty rf all_results_map_Inr Let_def)
    show "\<forall>alts ts. schema_allOf s = None \<and>
                (schema_oneOf s = Some alts \<or> schema_oneOf s = None \<and> schema_anyOf s = Some alts) \<and>
                map (\<lambda>a. schemaToType (Object a) (indent + 1)) alts = map Inr ts \<longrightarrow>
              schemaToType (Object s) indent = Inr (''('' @ join '' | '' ts @ '')'')"
      unfolding Schema by (auto simp add: ty rf all_results_map_Inr Let_def)
  next
    assume "\<exists>t \<in> set recognized_types. schema_type s = Some t"
    then obtain t where t: "ty = Some t" "t \<in> set recognized_types"
      by (auto simp: Schema)
    show "\<forall>al on an. schemaToType (Object (with_composites s al on an)) indent =
                       schemaToType (Object s) indent"
      unfolding Schema with_composites_def schema.sel
      by (intro allI) (rule schemaToType_composites_unread[OF t])
  qed
qed

theorem schemaToType_composite_witness:
  "schemaToType (Object string_or_integer_schema) 0 = Inr ''(string | number)'' \<and>
   schemaToType (Object any_of_schema) 0 = Inr ''(boolean | number)'' \<and>
   schemaToType (Object all_and_one_schema) 0 = Inr ''Pet & Tagged'' \<and>
   schemaToType (Object object_allOf_schema) 0 = Inr ''Record<string, any>''"
proof -
  have types: "schema_ref string_or_integer_schema = None" "schema_ref any_of_schema = None"
    "schema_ref all_and_one_schema = None"
    "\<forall>t \<in> set recognized_types. schema_type string_or_integer_schema \<noteq> Some t"
    "\<forall>t \<in> set recognized_types. schema_type any_of_schema \<noteq> Some t"
    "\<forall>t \<in> set recognized_types. schema_type all_and_one_schema \<noteq> Some t"
    by (simp_all add: schema_examples recognized_types_def)
  have alts:
    "map (\<lambda>a. schemaToType (Object a) (0 + 1)) [typed_schema ''string'', typed_schema ''integer'']
       = map Inr [''string'', ''number'']"
    "map (\<lambda>a. schemaToType (Object a) (0 + 1)) [typed_schema ''boolean'', typed_schema ''number'']
       = map Inr [''boolean'', ''number'']"
    "map (\<lambda>a. schemaToType (Object a) (0 + 1))
         [ref_schema ''#/components/schemas/Pet'', ref_schema ''#/components/schemas/Tagged'']
       = map Inr [''Pet'', ''Tagged'']"
    by (simp_all add: schema_examples getRefTypeName_def)
  have fields: "schema_allOf string_or_integer_schema = None"
    "schema_oneOf string_or_integer_schema = Some [typed_schema ''string'', typed_schema ''integer'']"
    "schema_allOf any_of_schema = None" "schema_oneOf any_of_schema = None"
    "schema_anyOf any_of_schema = Some [typed_schema ''boolean'', typed_schema ''number'']"
    "schema_allOf all_and_one_schema =
       Some [ref_schema ''#/components/schemas/Pet'', ref_schema ''#/components/schemas/Tagged'']"
    by (simp_all add: string_or_integer_schema_def any_of_schema_def all_and_one_schema_def)
  from schemaToType_composite[OF types(1), of 0] types(4) fields(1,2) alts(1)
  have "schemaToType (Object string_or_integer_schema) 0 =
          Inr (''('' @ join '' | '' [''string'', ''number''] @ '')'')"
    by blast
  moreover from schemaToType_composite[OF types(2), of 0] types(5) fields(3,4,5) alts(2)
  have "schemaToType (Object any_of_schema) 0 =
          Inr (''('' @ join '' | '' [''boolean'', ''number''] @ '')'')"
    by blast
  moreover from schemaToType_composite[OF types(3), of 0] types(6) fields(6) alts(3)
  have "schemaToType (Object all_and_one_schema) 0 = Inr (join '' & '' [''Pet'', ''Tagged''])"
    by blast
  moreover have "schemaToType (Object object_allOf_schema) 0 = Inr ''Record<string, any>''"
  proof -
    have ref: "schema_ref (typed_schema ''object'') = None"
      and ty: "\<exists>t \<in> set recognized_types. schema_type (typed_schema ''object'') = Some t"
      by (simp_all add: typed_schema_def recognized_types_def)
    have "object_allOf_schema =
            with_composites (typed_schema ''object'') (Some [typed_schema ''string'']) None None"
      by (simp add: object_allOf_schema_def with_composites_def typed_schema_def)
    moreover from schemaToType_composite[OF ref, of 0] ty
    have "schemaToType
            (Object (with_composites (typed_schema ''object'') (Some [typed_schema ''string''])
                       None None)) 0 =
          schemaToType (Object (typed_schema ''object'')) 0"
      by blast
    ultimately have "schemaToType (Object object_allOf_schema) 0 =
            schemaToType (Object (typed_schema ''object'')) 0"
      by (simp only:)
    then show ?thesis by (simp add: typed_schema_def)
  qed
  ultimately show ?thesis by simp
qed

lemma schemaToType_enum_unread:
  assumes "ty \<noteq> Some ''string''"
  shows "schemaToType (Object (Schema ty fmt e it pr rq ap rf al on an)) indent =
         schemaToType (Object (Schema ty fmt e' it pr rq ap rf al on an)) indent"
  using assms by (simp cong: if_cong option.case_cong)

text \<open>
  Claim C10. For every schema node (a node that is a reference is projected by its name
  before its type is read, and is no node of a type): the types \<^verbatim>\<open>integer\<close> and
  \<^verbatim>\<open>number\<close> are projected to \<^verbatim>\<open>number\<close> and the type \<^verbatim>\<open>boolean\<close> to
  \<^verbatim>\<open>boolean\<close>, whatever the node holds as \<^verbatim>\<open>enum\<close>; a node of type \<^verbatim>\<open>string\<close>
  with an \<^verbatim>\<open>enum\<close> is projected to the union of its quoted values; and for a node of
  any other type the projection does not depend on the \<^verbatim>\<open>enum\<close> field at all.
\<close>

theorem schemaToType_primitive:
  assumes "schema_ref s = None"
  shows "(schema_type s = Some ''integer'' \<or> schema_type s = Some ''number'' \<longrightarrow>
            schemaToType (Object s) indent = Inr ''number'')
       \<and> (schema_type s = Some ''boolean'' \<longrightarrow> schemaToType (Object s) indent = Inr ''boolean'')
       \<and> (\<forall>vs. schema_type s = Some ''string'' \<and> schema_enum s = Some vs \<longrightarrow>
            schemaToType (Object s) indent = Inr (join '' | '' (map quoted vs)))
       \<and> (\<forall>e. schema_type s \<noteq> Some ''string'' \<longrightarrow>
            schemaToType (Object (with_enum s e)) indent = schemaToType (Object s) indent)"
proof (cases s)
  case (Schema ty fmt en it pr rq ap rf al on an)
  with assms have rf: "rf = None" by simp
  have "ty = Some ''integer'' \<or> ty = Some ''number'' \<longrightarrow>
          schemaToType (Object s) indent = Inr ''number''"
    unfolding Schema rf by auto
  moreover have "ty = Some ''boolean'' \<longrightarrow> schemaToType (Object s) indent = Inr ''boolean''"
    unfolding Schema rf by simp
  moreover have "\<forall>vs. ty = Some ''string'' \<and> en = Some vs \<longrightarrow>
          schemaToType (Object s) indent = Inr (join '' | '' (map quoted vs))"
    unfolding Schema rf by simp
  moreover have "\<forall>e. ty \<noteq> Some ''string'' \<longrightarrow>
          schemaToType (Object (with_enum s e)) indent = schemaToType (Object s) indent"
    unfolding Schema with_enum_def using schemaToType_enum_unread by simp
  ultimately show ?thesis unfolding Schema by simp
qed

theorem schemaToType_primitive_witness:
  "schemaToType (Object integer_enum_schema) 0 = Inr ''number'' \<and>
   schemaToType (Object (typed_schema ''boolean'')) 0 = Inr ''boolean'' \<and>
   schemaToType (Object (with_enum (typed_schema ''string'') (Some [''asc'', ''desc'']))) 0 =
     Inr (join '' | '' [quoted ''asc'', quoted ''desc'']) \<and>
   schemaToType (Object (with_enum (typed_schema ''array'') (Some [''asc'', ''desc'']))) 0 =
     Inr ''any[]''"
proof -
  have refs: "schema_ref integer_enum_schema = None" "schema_ref (typed_schema ''boolean'') = None"
    "schema_ref (with_enum (typed_schema ''string'') (Some [''asc'', ''desc''])) = None"
    "schema_ref (typed_schema ''array'') = None"
    by (simp_all add: integer_enum_schema_def typed_schema_def with_enum_def)
  have a: "schemaToType (Object integer_enum_schema) 0 = Inr ''number''"
    using schemaToType_primitive[OF refs(1), of 0] by (simp add: integer_enum_schema_def)
  have b: "schemaToType (Object (typed_schema ''boolean'')) 0 = Inr ''boolean''"
    using schemaToType_primitive[OF refs(2), of 0] by (simp add: typed_schema_def)
  have c: "schemaToType (Object (with_enum (typed_schema ''string'') (Some [''asc'', ''desc'']))) 0 =
      Inr (join '' | '' (map quoted [''asc'', ''desc'']))"
    using schemaToType_primitive[OF refs(3), of 0] by (simp add: typed_schema_def with_enum_def)
  have "schemaToType (Object (with_enum (typed_schema ''array'') (Some [''asc'', ''desc'']))) 0 =
      schemaToType (Object (typed_schema ''array'')) 0"
    using schemaToType_primitive[OF refs(4), of 0] by (simp add: typed_schema_def)
  then have d: "schemaToType (Object (with_enum (typed_schema ''array'') (Some [''asc'', ''desc'']))) 0 =
      Inr ''any[]''"
    by (simp add: typed_schema_def)
  from a b c d show ?thesis by simp
qed

section \<open>Responses without a schema\<close>

lemma find_in_set: "find P xs = Some x \<Longrightarrow> x \<in> set xs"
  by (induction xs) (auto split: if_splits)

lemma no_schema_getSchemaFromContent:
  assumes "no_schema c"
  shows "getSchemaFromContent (Some c) = None"
proof -
  have json: "media_schema j = None" if "map_of c ''application/json'' = Some (Some j)" for j
  proof -
    from that have "(''application/json'', Some j) \<in> set c" by (rule map_of_SomeD)
    with assms show ?thesis by (auto simp: no_schema_def)
  qed
  have first: "media_schema f = None"
    if "find (\<lambda>item. item \<noteq> None) (map snd c) = Some (Some f)" for f
  proof -
    from that have "Some f \<in> set (map snd c)" by (rule find_in_set)
    then obtain k where "(k, Some f) \<in> set c" by auto
    with assms show ?thesis by (auto simp: no_schema_def)
  qed
  show ?thesis
    by (auto simp: getSchemaFromContent_def json first split: option.splits)
qed

text \<open>
  Claim C9. For every response whose content is absent, or whose content table has no
  entry that carries a schema, \<open>generateResponseType\<close> returns the unknown type
  \<^verbatim>\<open>any\<close>; it returns a value, so it does not throw.
\<close>

theorem generateResponseType_no_schema:
  assumes "resp_content r = None \<or> (\<exists>c. resp_content r = Some c \<and> no_schema c)"
  shows "generateResponseType (Some r) endpointName statusCode = Inr ''any''"
proof -
  from assms have "getSchemaFromContent (resp_content r) = None"
    by (auto simp: no_schema_getSchemaFromContent) (simp add: getSchemaFromContent_def)
  then show ?thesis by (simp add: generateResponseType_def)
qed

theorem generateResponseType_no_schema_witness:
  "resp_content not_found_response = None \<and>
   generateResponseType (Some not_found_response) ''getPet'' ''404'' = Inr ''any'' \<and>
   (\<exists>c. resp_content plain_text_response = Some c \<and> no_schema c) \<and>
   generateResponseType (Some plain_text_response) ''getPet'' ''404'' = Inr ''any''"
proof -
  have a: "resp_content not_found_response = None" by (simp add: not_found_response_def)
  have b: "\<exists>c. resp_content plain_text_response = Some c \<and> no_schema c"
    by (simp add: plain_text_response_def no_schema_def)
  from a b generateResponseType_no_schema[of not_found_response "''getPet''" "''404''"]
    generateResponseType_no_schema[of plain_text_response "''getPet''" "''404''"]
  show ?thesis by blast
qed

section \<open>Self-referential schemas\<close>

lemma node_unresolved_refs: "unresolved_refs node_components = []"
  by (simp add: unresolved_refs_def node_components_def ref_schema_def ref_target_def raw_at_def)

lemma node_graph:
  assumes "dereference node_components = Inr g"
  shows "g (''Node'', []) =
           Some (Node (Some ''object'') None None None
                   (Some [(''children'', (''Node'', [Property ''children'']))])
                   None None None None None None)"
    and "g (''Node'', [Property ''children'']) =
           Some (Node (Some ''array'') None None (Some (''Node'', []))
                   None None None None None None None)"
proof -
  from assms have g: "g = (\<lambda>p. case raw_at node_components p of
                      None \<Rightarrow> None
                    | Some s \<Rightarrow> if schema_ref s \<noteq> None then None
                                else Some (node_at node_components p s))"
    by (simp add: dereference_def node_unresolved_refs)
  show "g (''Node'', []) =
           Some (Node (Some ''object'') None None None
                   (Some [(''children'', (''Node'', [Property ''children'']))])
                   None None None None None None)"
    unfolding g
    by (simp add: node_components_def raw_at_def node_at_def link_def ref_schema_def
          ref_target_def)
  show "g (''Node'', [Property ''children'']) =
           Some (Node (Some ''array'') None None (Some (''Node'', []))
                   None None None None None None None)"
    unfolding g
    by (simp add: node_components_def raw_at_def node_at_def link_def ref_schema_def
          ref_target_def)
qed

lemma self_reference_never_returns:
  assumes "g root =
           Some (Node (Some ''object'') None None None (Some [(k, kid)])
                   None None None None None None)"
    and "g kid =
           Some (Node (Some ''array'') None None (Some root)
                   None None None None None None None)"
  shows "schemaToType_resolved n g (GObject root) indent = None \<and>
         schemaToType_resolved n g (GObject kid) indent = None"
proof (induction n arbitrary: indent)
  case 0
  show ?case by simp
next
  case (Suc n)
  from Suc[of "indent + 1"] have "schemaToType_resolved n g (GObject kid) (indent + 1) = None"
    by simp
  then have root: "schemaToType_resolved (Suc n) g (GObject root) indent = None"
    by (simp add: assms then_type_def object_entries_single)
  from Suc[of indent] have "schemaToType_resolved n g (GObject root) indent = None"
    by simp
  then have "schemaToType_resolved (Suc n) g (GObject kid) indent = None"
    by (simp add: assms then_type_def)
  with root show ?case by simp
qed

text \<open>
  Claim C1 fails on the code. The document of the scenario, where \<^verbatim>\<open>Node\<close> has
  \<^verbatim>\<open>children\<close> that are an array of \<^verbatim>\<open>Node\<close>, loads: the resolver replaces the
  reference by the \<^verbatim>\<open>Node\<close> object itself. On the graph that results the projector
  finds no reference any more, descends from the object to the array and from the array
  to the object again, and no depth of calls is enough for it to return: whatever the
  fuel, the result is \<open>None\<close>. The name \<^verbatim>\<open>Node\<close> is rendered on the document that
  was not resolved only (\<open>node_unresolved_projection\<close> below).
\<close>

theorem schemaToType_self_reference_diverges:
  "\<exists>g. loadOpenAPISpec node_components = Inr g \<and>
       (\<forall>n indent. schemaToType_resolved n g (GObject (''Node'', [])) indent = None)"
proof -
  obtain g where g: "dereference node_components = Inr g"
    by (simp add: dereference_def node_unresolved_refs)
  from self_reference_never_returns[OF node_graph[OF g]]
  have "\<forall>n indent. schemaToType_resolved n g (GObject (''Node'', [])) indent = None"
    by blast
  with g show ?thesis by (auto simp: loadOpenAPISpec_def)
qed

lemma node_unresolved_projection:
  "map_option (\<lambda>s. schemaToType (Object s) 0) (map_of node_components ''Node'') =
     Some (Inr ''{\<newline>  children?: Array<Node>;\<newline>}'')"
  by (simp add: node_components_def ref_schema_def getRefTypeName_def repeat_def or_empty_def
        object_entries_single)

lemma pet_unresolved_refs: "unresolved_refs pet_components = []"
  by (simp add: unresolved_refs_def pet_components_def pet_schema_def owner_schema_def
        typed_schema_def ref_schema_def ref_target_def raw_at_def)

lemma pet_resolved_projection:
  "\<exists>g. loadOpenAPISpec pet_components = Inr g \<and>
       schemaToType_resolved 3 g (GObject (''Pet'', [])) 0 =
         Some (schemaToType (Object (pet_schema owner_schema)) 0)"
proof -
  obtain g where g: "dereference pet_components = Inr g"
    by (simp add: dereference_def pet_unresolved_refs)
  then have g_def: "g = (\<lambda>p. case raw_at pet_components p of
                      None \<Rightarrow> None
                    | Some s \<Rightarrow> if schema_ref s \<noteq> None then None
                                else Some (node_at pet_components p s))"
    by (simp add: dereference_def pet_unresolved_refs)
  have nodes:
    "g (''Pet'', []) =
       Some (Node (Some ''object'') None None None
               (Some [(''owner'', (''Owner'', [])), (''tags'', (''Pet'', [Property ''tags'']))])
               (Some [''owner'']) None None None None None)"
    "g (''Owner'', []) =
       Some (Node (Some ''object'') None None None
               (Some [(''name'', (''Owner'', [Property ''name'']))])
               None None None None None None)"
    "g (''Owner'', [Property ''name'']) =
       Some (Node (Some ''string'') None None None None None None None None None None)"
    "g (''Pet'', [Property ''tags'']) =
       Some (Node (Some ''array'') None None (Some (''Pet'', [Property ''tags'', Items]))
               None None None None None None None)"
    "g (''Pet'', [Property ''tags'', Items]) =
       Some (Node (Some ''string'') None None None None None None None None None None)"
    unfolding g_def
    by (simp_all add: pet_components_def pet_schema_def owner_schema_def typed_schema_def
          raw_at_def node_at_def link_def ref_schema_def ref_target_def nth_option_def)
  have "schemaToType_resolved 3 g (GObject (''Pet'', [])) 0 =
         Some (schemaToType (Object (pet_schema owner_schema)) 0)"
    by (simp add: numeral_3_eq_3 nodes then_type_def pet_schema_def owner_schema_def
          typed_schema_def repeat_def or_empty_def entries_simps)
  with g show ?thesis by (auto simp: loadOpenAPISpec_def)
qed



end
